theory Spec2Isabelle
  imports Complex_Main
begin

section \<open>Python values and exceptions\<close>

text \<open>
  The adapter of \<^verbatim>\<open>src/pipelines/anthropic.py\<close> works on JSON-like Python values:
  the chat turns, the options bag, the decoded upstream responses. A dictionary is an
  association list with string keys, looked up with \<open>map_of\<close>. A float is identified with
  the rational it denotes; the adapter passes floats through and, for image sizes, only
  forms multiples of a quarter, which binary floating point represents exactly far beyond
  any payload size.
\<close>

datatype pyval =
    PNone
  | PBool bool
  | PInt int
  | PFloat rat
  | PStr string
  | PList "pyval list"
  | PDict "(string \<times> pyval) list"

type_synonym dict = "(string \<times> pyval) list"

text \<open>
  Every exception the code can meet is a subclass of Python's \<open>Exception\<close>. The payload is
  the text of \<open>str(e)\<close>; for a \<open>KeyError\<close> that is the \<open>repr\<close> of the missing key, a
  string key in single quotes. For \<open>TypeError\<close>, \<open>AttributeError\<close>, \<open>IndexError\<close> and
  \<open>RecursionError\<close> the wording is the interpreter's (CPython 3.11 is followed), and for
  \<open>RequestException\<close> and \<open>JSONDecodeError\<close> it is the libraries'.
\<close>

datatype exn =
    KeyError string
  | TypeError string
  | AttributeError string
  | IndexError string
  | ValueError string
  | Exception string
  | RequestException string
  | JSONDecodeError string
  | RecursionError string

definition quote :: "string \<Rightarrow> string" where
  "quote k = [CHR 0x27] @ k @ [CHR 0x27]"

fun str_exn :: "exn \<Rightarrow> string" where
  "str_exn (KeyError k) = k"
| "str_exn (TypeError m) = m"
| "str_exn (AttributeError m) = m"
| "str_exn (IndexError m) = m"
| "str_exn (ValueError m) = m"
| "str_exn (Exception m) = m"
| "str_exn (RequestException m) = m"
| "str_exn (JSONDecodeError m) = m"
| "str_exn (RecursionError m) = m"

text \<open>\<open>str(n)\<close> for an integer: its decimal digits, with a minus sign when negative.\<close>

fun str_nat :: "nat \<Rightarrow> string" where
  "str_nat n = (if n < 10 then [''0123456789'' ! n]
                else str_nat (n div 10) @ [''0123456789'' ! (n mod 10)])"

declare str_nat.simps [simp del]

definition str_int :: "int \<Rightarrow> string" where
  "str_int i = (if i < 0 then CHR ''-'' # str_nat (nat (- i)) else str_nat (nat i))"

text \<open>
  \<open>str(v)\<close> for a value: a string is itself; for every other value Python prints its
  \<open>repr\<close>, which is the interpreter's and is taken as a parameter.
\<close>

fun py_str :: "(pyval \<Rightarrow> string) \<Rightarrow> pyval \<Rightarrow> string" where
  "py_str repr (PStr s) = s"
| "py_str repr v = repr v"

text \<open>Truth value of a Python object, as \<open>if x:\<close> tests it.\<close>

fun truthy :: "pyval \<Rightarrow> bool" where
  "truthy PNone = False"
| "truthy (PBool b) = b"
| "truthy (PInt i) = (i \<noteq> 0)"
| "truthy (PFloat r) = (r \<noteq> 0)"
| "truthy (PStr s) = (s \<noteq> [])"
| "truthy (PList xs) = (xs \<noteq> [])"
| "truthy (PDict d) = (d \<noteq> [])"

text \<open>\<open>d[k]\<close> on a dictionary, raising \<open>KeyError\<close> when the key is missing.\<close>

definition dict_getitem :: "dict \<Rightarrow> string \<Rightarrow> exn + pyval" where
  "dict_getitem d k =
     (case map_of d k of None \<Rightarrow> Inl (KeyError (quote k)) | Some v \<Rightarrow> Inr v)"

text \<open>
  \<open>x[k]\<close> with a string key \<open>k\<close> on an arbitrary value: only a dictionary can be
  subscripted by a string; everything else raises \<open>TypeError\<close>.
\<close>

fun type_name :: "pyval \<Rightarrow> string" where
  "type_name PNone = ''NoneType''"
| "type_name (PBool b) = ''bool''"
| "type_name (PInt i) = ''int''"
| "type_name (PFloat r) = ''float''"
| "type_name (PStr s) = ''str''"
| "type_name (PList xs) = ''list''"
| "type_name (PDict d) = ''dict''"

fun getitem :: "pyval \<Rightarrow> string \<Rightarrow> exn + pyval" where
  "getitem (PDict d) k = dict_getitem d k"
| "getitem (PStr s) k = Inl (TypeError (''string indices must be integers, not '' @ quote ''str''))"
| "getitem (PList xs) k = Inl (TypeError ''list indices must be integers or slices, not str'')"
| "getitem v k = Inl (TypeError (quote (type_name v) @ '' object is not subscriptable''))"

text \<open>\<open>d.get(k, default)\<close>.\<close>

definition dict_get :: "dict \<Rightarrow> string \<Rightarrow> pyval \<Rightarrow> pyval" where
  "dict_get d k dflt = (case map_of d k of None \<Rightarrow> dflt | Some v \<Rightarrow> v)"

text \<open>\<open>d.pop(k, None)\<close>, for its effect on the dictionary.\<close>

definition dict_pop :: "dict \<Rightarrow> string \<Rightarrow> dict" where
  "dict_pop d k = filter (\<lambda>kv. fst kv \<noteq> k) d"

section \<open>System-message extraction\<close>

text \<open>
  \<^verbatim>\<open>pop_system_message\<close> (lines 22 to 29). The empty list is returned as it is; otherwise
  the first turn's \<open>role\<close> is read (\<open>KeyError\<close> when the turn has none) and, when it is
  \<open>"system"\<close>, the turn's \<open>content\<close> is read (\<open>KeyError\<close> again when missing) and returned
  with the rest of the list. Python's \<open>None\<close> is \<open>PNone\<close>.
\<close>

fun pop_system_message :: "dict list \<Rightarrow> exn + (pyval \<times> dict list)" where
  "pop_system_message [] = Inr (PNone, [])"
| "pop_system_message (m # ms) =
     (case dict_getitem m ''role'' of
        Inl e \<Rightarrow> Inl e
      | Inr r \<Rightarrow>
          if r = PStr ''system''
          then (case dict_getitem m ''content'' of
                  Inl e \<Rightarrow> Inl e
                | Inr c \<Rightarrow> Inr (c, ms))
          else Inr (PNone, m # ms))"

section \<open>Configuration\<close>

text \<open>The \<^verbatim>\<open>Valves\<close> of the pipeline (lines 32 to 39).\<close>

record valves =
  ANTHROPIC_API_KEY :: string
  MAX_IMAGES :: int
  MAX_IMAGE_SIZE_MB :: int
  DEFAULT_MAX_TOKENS :: int
  DEFAULT_TEMPERATURE :: rat
  DEFAULT_TOP_K :: int
  DEFAULT_TOP_P :: rat

definition default_valves :: valves where
  "default_valves =
     \<lparr>ANTHROPIC_API_KEY = [], MAX_IMAGES = 5, MAX_IMAGE_SIZE_MB = 100,
      DEFAULT_MAX_TOKENS = 4096, DEFAULT_TEMPERATURE = 4 / 5, DEFAULT_TOP_K = 40,
      DEFAULT_TOP_P = 9 / 10\<rparr>"

section \<open>Content blocks and image processing\<close>

text \<open>
  The blocks the adapter builds as dictionaries \<open>{"type": "text", "text": t}\<close> and
  \<open>{"type": "image", "source": {...}}\<close>, the source being \<open>base64\<close> with a media type
  and the data, or \<open>url\<close>.
\<close>

datatype source = Base64 string string | Url string

datatype block = TextBlock pyval | ImageBlock source

text \<open>String operations of Python used by \<^verbatim>\<open>process_image\<close>.\<close>

definition startswith :: "string \<Rightarrow> string \<Rightarrow> bool" where
  "startswith s p = (take (length p) s = p)"

text \<open>\<open>s.split(sep, 1)\<close>: one part when \<open>sep\<close> does not occur, else two.\<close>

definition split_once :: "char \<Rightarrow> string \<Rightarrow> string list" where
  "split_once sep s =
     (case dropWhile (\<lambda>c. c \<noteq> sep) s of
        [] \<Rightarrow> [s]
      | _ # rest \<Rightarrow> [takeWhile (\<lambda>c. c \<noteq> sep) s, rest])"

text \<open>\<open>s.split(sep)\<close>: the parts between all occurrences of \<open>sep\<close>.\<close>

fun split_char :: "char \<Rightarrow> string \<Rightarrow> string list" where
  "split_char sep [] = [[]]"
| "split_char sep (c # cs) =
     (if c = sep then [] # split_char sep cs
      else (case split_char sep cs of
              [] \<Rightarrow> [[c]]
            | p # ps \<Rightarrow> (c # p) # ps))"

text \<open>
  The body of the \<open>try\<close> of \<^verbatim>\<open>process_image\<close> (lines 93 to 107). \<open>image_data["url"]\<close>
  raises when the key is missing or the value cannot be subscripted; \<open>.startswith\<close>
  exists on strings only; unpacking the result of \<open>split(",", 1)\<close> needs two parts; the
  media type is part 1 of the split at colons, up to its first semicolon.
\<close>

definition process_image_body :: "pyval \<Rightarrow> exn + block" where
  "process_image_body image_data =
     (case getitem image_data ''url'' of
        Inl e \<Rightarrow> Inl e
      | Inr u \<Rightarrow>
         (case u of
            PStr url \<Rightarrow>
              if startswith url ''data:image'' then
                (case split_once CHR '','' url of
                   [mime_type, base64_data] \<Rightarrow>
                     (case split_char CHR '':'' mime_type of
                        _ # part # _ \<Rightarrow>
                          (case split_char CHR '';'' part of
                             media_type # _ \<Rightarrow>
                               Inr (ImageBlock (Base64 media_type base64_data))
                           | [] \<Rightarrow> Inl (IndexError ''list index out of range''))
                      | _ \<Rightarrow> Inl (IndexError ''list index out of range''))
                 | _ \<Rightarrow> Inl (ValueError ''not enough values to unpack (expected 2, got 1)''))
              else Inr (ImageBlock (Url url))
          | _ \<Rightarrow> Inl (AttributeError (quote (type_name u) @ '' object has no attribute ''
                                      @ quote ''startswith''))))"

text \<open>\<^verbatim>\<open>process_image\<close> (lines 90 to 110): every failure is raised again as \<open>ValueError\<close>.\<close>

definition process_image :: "pyval \<Rightarrow> exn + block" where
  "process_image image_data =
     (case process_image_body image_data of
        Inl e \<Rightarrow> Inl (ValueError (''Invalid image data: '' @ str_exn e))
      | Inr b \<Rightarrow> Inr b)"

section \<open>Normalising the turns\<close>

text \<open>
  Lines 152 to 162, after an image has been processed: a base64 image adds
  \<open>len(data) * 3 / 4\<close> (true division, no rounding) to the running total, which is then
  compared with the ceiling in bytes; then the image counter goes up. The loop state is
  the pair of \<open>image_count\<close> and \<open>total_image_size\<close>.
\<close>

definition image_size :: "string \<Rightarrow> rat" where
  "image_size base64_data = of_nat (length base64_data) * 3 / 4"

definition account_image :: "valves \<Rightarrow> nat \<times> rat \<Rightarrow> block \<Rightarrow> exn + (nat \<times> rat)" where
  "account_image v st processed_image =
     (case processed_image of
        ImageBlock (Base64 media_type base64_data) \<Rightarrow>
          (let total_image_size = snd st + image_size base64_data in
           if total_image_size > of_int (MAX_IMAGE_SIZE_MB v * 1024 * 1024)
           then Inl (ValueError (''Total size of images exceeds ''
                       @ str_int (MAX_IMAGE_SIZE_MB v) @ ''MB limit''))
           else Inr (fst st + 1, total_image_size))
      | _ \<Rightarrow> Inr (fst st + 1, snd st))"

text \<open>
  The inner loop over the items of a list content (lines 137 to 162). The blocks are
  returned in the order in which the code appends them; an exception ends the loop at
  the item that raises it. An item whose type is neither \<open>"text"\<close> nor \<open>"image_url"\<close>
  matches no branch.
\<close>

fun process_items :: "valves \<Rightarrow> nat \<times> rat \<Rightarrow> pyval list \<Rightarrow> exn + ((nat \<times> rat) \<times> block list)" where
  "process_items v st [] = Inr (st, [])"
| "process_items v st (item # items) =
     (case getitem item ''type'' of
        Inl e \<Rightarrow> Inl e
      | Inr ty \<Rightarrow>
          if ty = PStr ''text'' then
            (case getitem item ''text'' of
               Inl e \<Rightarrow> Inl e
             | Inr t \<Rightarrow>
                (case process_items v st items of
                   Inl e \<Rightarrow> Inl e
                 | Inr (st', bs) \<Rightarrow> Inr (st', TextBlock t # bs)))
          else if ty = PStr ''image_url'' then
            (if int (fst st) \<ge> MAX_IMAGES v
             then Inl (ValueError (''Maximum of '' @ str_int (MAX_IMAGES v)
                         @ '' images per API call exceeded''))
             else
               (case getitem item ''image_url'' of
                  Inl e \<Rightarrow> Inl e
                | Inr image_data \<Rightarrow>
                   (case process_image image_data of
                      Inl e \<Rightarrow> Inl e
                    | Inr processed_image \<Rightarrow>
                       (case account_image v st processed_image of
                          Inl e \<Rightarrow> Inl e
                        | Inr st1 \<Rightarrow>
                           (case process_items v st1 items of
                              Inl e \<Rightarrow> Inl e
                            | Inr (st', bs) \<Rightarrow> Inr (st', processed_image # bs))))))
          else process_items v st items)"

text \<open>
  The content of one turn (lines 134 to 167): a list is normalised item by item, anything
  else becomes one text block holding \<open>message.get("content", "")\<close>.
\<close>

definition process_content :: "valves \<Rightarrow> nat \<times> rat \<Rightarrow> dict \<Rightarrow> exn + ((nat \<times> rat) \<times> block list)" where
  "process_content v st message =
     (case dict_get message ''content'' PNone of
        PList items \<Rightarrow> process_items v st items
      | _ \<Rightarrow> Inr (st, [TextBlock (dict_get message ''content'' (PStr []))]))"

record turn =
  role :: pyval
  content :: "block list"

text \<open>One pass of the outer loop (lines 133 to 172); \<open>message["role"]\<close> is read last.\<close>

definition process_message :: "valves \<Rightarrow> nat \<times> rat \<Rightarrow> dict \<Rightarrow> exn + ((nat \<times> rat) \<times> turn)" where
  "process_message v st message =
     (case process_content v st message of
        Inl e \<Rightarrow> Inl e
      | Inr (st', processed_content) \<Rightarrow>
         (case dict_getitem message ''role'' of
            Inl e \<Rightarrow> Inl e
          | Inr r \<Rightarrow> Inr (st', \<lparr>role = r, content = processed_content\<rparr>)))"

fun process_messages :: "valves \<Rightarrow> nat \<times> rat \<Rightarrow> dict list \<Rightarrow> exn + ((nat \<times> rat) \<times> turn list)" where
  "process_messages v st [] = Inr (st, [])"
| "process_messages v st (message # rest) =
     (case process_message v st message of
        Inl e \<Rightarrow> Inl e
      | Inr (st1, t) \<Rightarrow>
         (case process_messages v st1 rest of
            Inl e \<Rightarrow> Inl e
          | Inr (st', ts) \<Rightarrow> Inr (st', t # ts)))"

section \<open>Assembling the request\<close>

record payload =
  model :: string
  messages :: "turn list"
  max_tokens :: pyval
  temperature :: pyval
  top_k :: pyval
  top_p :: pyval
  stop_sequences :: pyval
  stream :: pyval
  system :: "string option"

text \<open>
  Lines 121 to 188 of \<^verbatim>\<open>pipe\<close>: the bookkeeping keys are popped from the options bag,
  the system message is extracted, the turns are normalised from counters at zero, and
  the payload is built; the \<open>system\<close> key is set only when the extracted content is truthy.
\<close>

definition clean_body :: "dict \<Rightarrow> dict" where
  "clean_body body = fold (\<lambda>key b. dict_pop b key) [''user'', ''chat_id'', ''title''] body"

definition prepare_payload ::
    "(pyval \<Rightarrow> string) \<Rightarrow> valves \<Rightarrow> string \<Rightarrow> dict list \<Rightarrow> dict \<Rightarrow> exn + payload" where
  "prepare_payload repr v model_id msgs body0 =
     (let body = clean_body body0 in
      case pop_system_message msgs of
        Inl e \<Rightarrow> Inl e
      | Inr (system_message, msgs') \<Rightarrow>
         (case process_messages v (0, 0) msgs' of
            Inl e \<Rightarrow> Inl e
          | Inr (st, processed_messages) \<Rightarrow>
              Inr \<lparr>model = model_id,
                   messages = processed_messages,
                   max_tokens = dict_get body ''max_tokens'' (PInt (DEFAULT_MAX_TOKENS v)),
                   temperature = dict_get body ''temperature'' (PFloat (DEFAULT_TEMPERATURE v)),
                   top_k = dict_get body ''top_k'' (PInt (DEFAULT_TOP_K v)),
                   top_p = dict_get body ''top_p'' (PFloat (DEFAULT_TOP_P v)),
                   stop_sequences = dict_get body ''stop'' (PList []),
                   stream = dict_get body ''stream'' (PBool False),
                   system = (if truthy system_message
                             then Some (py_str repr system_message) else None)\<rparr>))"

section \<open>Transport and response decoding\<close>

text \<open>
  \<open>requests.post\<close> is the environment: a function from the payload and the \<open>stream\<close>
  flag to a raised transport exception or a response. A response has its status code and
  text, the outcome of \<open>response.json()\<close>, and, when read as a stream, its events followed
  by the normal end of the stream or by the exception that breaks it. An event is given by
  what \<open>json.loads\<close> does with its data: it returns the decoded value, or it raises an
  exception, which is \<open>JSONDecodeError\<close> for text that is not JSON, but also
  \<open>RecursionError\<close> for nesting beyond the interpreter's limit and a plain \<open>ValueError\<close> for
  an integer literal beyond its digit limit.
\<close>

datatype sse_event = LoadsRaises exn | Json pyval

record response =
  status_code :: int
  body_text :: string
  json_result :: "exn + pyval"
  events :: "sse_event list"
  stream_end :: "exn option"

type_synonym transport = "payload \<Rightarrow> bool \<Rightarrow> exn + response"

text \<open>
  \<open>try: ... except Exception as e: ...\<close>. Every exception of the model is an \<open>Exception\<close>,
  so the handler takes them all.
\<close>

definition try_except :: "exn + 'a \<Rightarrow> (exn \<Rightarrow> exn + 'a) \<Rightarrow> exn + 'a" where
  "try_except body handler = (case body of Inl e \<Rightarrow> handler e | Inr x \<Rightarrow> Inr x)"

definition api_error :: "response \<Rightarrow> exn" where
  "api_error r = Exception (''API Error: '' @ str_int (status_code r) @ '' - '' @ body_text r)"

text \<open>\<open>k in x\<close> for a string \<open>k\<close>, and \<open>x[0]\<close>, on an arbitrary decoded value.\<close>

fun contains_sub :: "string \<Rightarrow> string \<Rightarrow> bool" where
  "contains_sub k [] = (k = [])"
| "contains_sub k (c # cs) = (take (length k) (c # cs) = k \<or> contains_sub k cs)"

fun py_in :: "string \<Rightarrow> pyval \<Rightarrow> exn + bool" where
  "py_in k (PDict d) = Inr (map_of d k \<noteq> None)"
| "py_in k (PList xs) = Inr (PStr k \<in> set xs)"
| "py_in k (PStr s) = Inr (contains_sub k s)"
| "py_in k v =
     Inl (TypeError (''argument of type '' @ quote (type_name v) @ '' is not iterable''))"

fun getitem0 :: "pyval \<Rightarrow> exn + pyval" where
  "getitem0 (PList []) = Inl (IndexError ''list index out of range'')"
| "getitem0 (PList (x # xs)) = Inr x"
| "getitem0 (PStr []) = Inl (IndexError ''string index out of range'')"
| "getitem0 (PStr (c # cs)) = Inr (PStr [c])"
| "getitem0 (PDict d) = Inl (KeyError ''0'')"
| "getitem0 v = Inl (TypeError (quote (type_name v) @ '' object is not subscriptable''))"

text \<open>The body of the \<open>try\<close> of \<^verbatim>\<open>get_completion\<close> (lines 237 to 243).\<close>

definition get_completion_body :: "transport \<Rightarrow> payload \<Rightarrow> exn + pyval" where
  "get_completion_body post p =
     (case post p False of
        Inl e \<Rightarrow> Inl e
      | Inr r \<Rightarrow>
          if status_code r \<noteq> 200 then Inl (api_error r)
          else
            (case json_result r of
               Inl e \<Rightarrow> Inl e
             | Inr result \<Rightarrow>
                (case py_in ''content'' result of
                   Inl e \<Rightarrow> Inl e
                 | Inr False \<Rightarrow> Inr (PStr [])
                 | Inr True \<Rightarrow>
                    (case getitem result ''content'' of
                       Inl e \<Rightarrow> Inl e
                     | Inr c \<Rightarrow>
                         if truthy c then
                           (case getitem0 c of
                              Inl e \<Rightarrow> Inl e
                            | Inr x \<Rightarrow> getitem x ''text'')
                         else Inr (PStr [])))))"

text \<open>\<^verbatim>\<open>get_completion\<close> (lines 234 to 247).\<close>

definition get_completion :: "transport \<Rightarrow> payload \<Rightarrow> exn + pyval" where
  "get_completion post p =
     try_except (get_completion_body post p)
       (\<lambda>e. Inr (PStr (''Error getting completion: '' @ str_exn e)))"

text \<open>
  One event of the stream. \<^verbatim>\<open>event_body\<close> is lines 217 to 222, after \<open>json.loads\<close> has
  succeeded; \<^verbatim>\<open>inner_handlers\<close> is the pair of handlers of lines 224 to 228, which take
  \<open>JSONDecodeError\<close> and \<open>KeyError\<close> and nothing else, so that every other exception
  leaves the inner \<open>try\<close>; \<^verbatim>\<open>handle_event\<close> is that \<open>try\<close> (lines 214 to 228), around
  \<open>json.loads\<close> and the dispatch alike.
\<close>

datatype step = Yield pyval | Continue | Break

definition event_body :: "pyval \<Rightarrow> exn + step" where
  "event_body data =
     (case getitem data ''type'' of
        Inl e \<Rightarrow> Inl e
      | Inr ty \<Rightarrow>
          if ty = PStr ''content_block_start'' then
            (case getitem data ''content_block'' of
               Inl e \<Rightarrow> Inl e
             | Inr cb \<Rightarrow>
                (case getitem cb ''text'' of Inl e \<Rightarrow> Inl e | Inr t \<Rightarrow> Inr (Yield t)))
          else if ty = PStr ''content_block_delta'' then
            (case getitem data ''delta'' of
               Inl e \<Rightarrow> Inl e
             | Inr d \<Rightarrow>
                (case getitem d ''text'' of Inl e \<Rightarrow> Inl e | Inr t \<Rightarrow> Inr (Yield t)))
          else if ty = PStr ''message_stop'' then Inr Break
          else Inr Continue)"

definition inner_handlers :: "exn + step \<Rightarrow> exn + step" where
  "inner_handlers body =
     (case body of
        Inl (JSONDecodeError m) \<Rightarrow> Inr Continue
      | Inl (KeyError k) \<Rightarrow> Inr Continue
      | Inl e \<Rightarrow> Inl e
      | Inr a \<Rightarrow> Inr a)"

fun handle_event :: "sse_event \<Rightarrow> exn + step" where
  "handle_event (LoadsRaises e) = inner_handlers (Inl e)"
| "handle_event (Json data) = inner_handlers (event_body data)"

text \<open>
  The loop over the events (line 213): the chunks yielded, in order, and the exception
  that leaves the loop, if one does. When the events are exhausted the stream ends
  normally or with its transport exception.
\<close>

fun events_loop :: "sse_event list \<Rightarrow> exn option \<Rightarrow> pyval list \<times> exn option" where
  "events_loop [] fin = ([], fin)"
| "events_loop (ev # evs) fin =
     (case handle_event ev of
        Inl e \<Rightarrow> ([], Some e)
      | Inr (Yield t) \<Rightarrow> (case events_loop evs fin of (cs, r) \<Rightarrow> (t # cs, r))
      | Inr Continue \<Rightarrow> events_loop evs fin
      | Inr Break \<Rightarrow> ([], None))"

text \<open>
  A generator, consumed to its end: the chunks it yields and the exception that escapes
  from it to the consumer, if any.
\<close>

datatype generator = Generator "pyval list" "exn option"

text \<open>\<^verbatim>\<open>stream_response\<close> (lines 199 to 232).\<close>

definition stream_response :: "transport \<Rightarrow> payload \<Rightarrow> generator" where
  "stream_response post p =
     (case post p True of
        Inl e \<Rightarrow> Generator [PStr (''Error during streaming: '' @ str_exn e)] None
      | Inr r \<Rightarrow>
          if status_code r \<noteq> 200
          then Generator [PStr (''Error during streaming: '' @ str_exn (api_error r))] None
          else
            (case events_loop (events r) (stream_end r) of
               (cs, None) \<Rightarrow> Generator cs None
             | (cs, Some e) \<Rightarrow>
                 Generator (cs @ [PStr (''Error during streaming: '' @ str_exn e)]) None))"

section \<open>The entry point\<close>

datatype pipe_result = Value pyval | Stream generator

text \<open>\<^verbatim>\<open>pipe\<close> (lines 112 to 197).\<close>

definition pipe ::
    "(pyval \<Rightarrow> string) \<Rightarrow> transport \<Rightarrow> valves \<Rightarrow> string \<Rightarrow> string \<Rightarrow> dict list \<Rightarrow> dict
       \<Rightarrow> exn + pipe_result" where
  "pipe repr post v user_message model_id msgs body =
     try_except
       (case prepare_payload repr v model_id msgs body of
          Inl e \<Rightarrow> Inl e
        | Inr p \<Rightarrow>
            if truthy (stream p) then Inr (Stream (stream_response post p))
            else (case get_completion post p of
                    Inl e \<Rightarrow> Inl e
                  | Inr s \<Rightarrow> Inr (Value s)))
       (\<lambda>e. Inr (Value (PStr (''Error: '' @ str_exn e))))"

section \<open>Quantities of a call\<close>

text \<open>
  What the statements below count. An image item is a content item whose \<open>type\<close> is
  \<open>"image_url"\<close>; the image items of a call are those in the list contents of its turns,
  the extracted system turn aside.
\<close>

definition is_image_item :: "pyval \<Rightarrow> bool" where
  "is_image_item item = (getitem item ''type'' = Inr (PStr ''image_url''))"

definition image_items :: "pyval list \<Rightarrow> nat" where
  "image_items items = length (filter is_image_item items)"

definition turn_image_items :: "dict \<Rightarrow> nat" where
  "turn_image_items message =
     (case dict_get message ''content'' PNone of
        PList items \<Rightarrow> image_items items
      | _ \<Rightarrow> 0)"

definition turns_image_items :: "dict list \<Rightarrow> nat" where
  "turns_image_items msgs = sum_list (map turn_image_items msgs)"

definition call_image_items :: "dict list \<Rightarrow> nat" where
  "call_image_items msgs =
     (case pop_system_message msgs of
        Inl e \<Rightarrow> 0
      | Inr (system_message, msgs') \<Rightarrow> turns_image_items msgs')"

text \<open>\<open>isinstance(x, list)\<close>.\<close>

fun is_list :: "pyval \<Rightarrow> bool" where
  "is_list (PList xs) = True"
| "is_list x = False"

text \<open>The image blocks of the outbound request, and the base64 data among them.\<close>

fun is_image_block :: "block \<Rightarrow> bool" where
  "is_image_block (ImageBlock s) = True"
| "is_image_block (TextBlock t) = False"

definition image_blocks :: "block list \<Rightarrow> nat" where
  "image_blocks bs = length (filter is_image_block bs)"

definition payload_image_blocks :: "payload \<Rightarrow> nat" where
  "payload_image_blocks p = sum_list (map (\<lambda>t. image_blocks (content t)) (messages p))"

fun base64_data :: "block list \<Rightarrow> string list" where
  "base64_data [] = []"
| "base64_data (ImageBlock (Base64 media_type d) # bs) = d # base64_data bs"
| "base64_data (b # bs) = base64_data bs"

definition payload_base64_data :: "payload \<Rightarrow> string list" where
  "payload_base64_data p = concat (map (\<lambda>t. base64_data (content t)) (messages p))"

text \<open>The cumulative size as the code accumulates it: the exact sum of \<open>len * 3 / 4\<close>.\<close>

definition total_size :: "string list \<Rightarrow> rat" where
  "total_size ds = sum_list (map image_size ds)"

text \<open>
  The cumulative size in the words of the specification, which rounds each image up:
  \<open>ceil(len(base64_data) * 3/4)\<close>, summed.
\<close>

definition spec_total_size :: "string list \<Rightarrow> int" where
  "spec_total_size ds = sum_list (map (\<lambda>d. \<lceil>image_size d\<rceil>) ds)"

text \<open>The two validation messages of lines 145 to 147 and 158 to 160.\<close>

definition too_many_images :: "int \<Rightarrow> exn" where
  "too_many_images mx =
     ValueError (''Maximum of '' @ str_int mx @ '' images per API call exceeded'')"

definition images_too_large :: "int \<Rightarrow> exn" where
  "images_too_large mb =
     ValueError (''Total size of images exceeds '' @ str_int mb @ ''MB limit'')"

section \<open>Sample inputs\<close>

text \<open>
  Inputs used to run the definitions: a data URI of a PNG image with the given base64
  data and the content item that carries it, a user turn and a system turn with the given
  content, and an upstream that answers every request with status 200 and the completion
  \<open>Hello\<close>.
\<close>

definition png_uri :: "string \<Rightarrow> string" where
  "png_uri d = ''data:image/png;base64,'' @ d"

definition png_item :: "string \<Rightarrow> pyval" where
  "png_item d =
     PDict [(''type'', PStr ''image_url''), (''image_url'', PDict [(''url'', PStr (png_uri d))])]"

definition user_turn :: "pyval \<Rightarrow> dict" where
  "user_turn c = [(''role'', PStr ''user''), (''content'', c)]"

definition hello_post :: transport where
  "hello_post p s =
     Inr \<lparr>status_code = 200, body_text = [],
          json_result = Inr (PDict [(''content'', PList [PDict [(''text'', PStr ''Hello'')]])]),
          events = [], stream_end = None\<rparr>"

definition system_turn :: "pyval \<Rightarrow> dict" where
  "system_turn c = [(''role'', PStr ''system''), (''content'', c)]"

section \<open>Properties\<close>

lemma str_nat_digit: "n < 10 \<Longrightarrow> str_nat n = [''0123456789'' ! n]"
  by (simp add: str_nat.simps)

subsection \<open>The options bag\<close>

lemma map_of_dict_pop: "k \<noteq> k' \<Longrightarrow> map_of (dict_pop d k') k = map_of d k"
  by (induction d) (auto simp: dict_pop_def)

lemma dict_get_clean_body:
  "k \<notin> {''user'', ''chat_id'', ''title''} \<Longrightarrow>
   dict_get (clean_body body) k dflt = dict_get body k dflt"
  by (simp add: clean_body_def dict_get_def map_of_dict_pop)

subsection \<open>Skipped items and events\<close>

lemma process_items_skip:
  assumes "map_of d ''type'' = Some ty" "ty \<noteq> PStr ''text''" "ty \<noteq> PStr ''image_url''"
  shows "process_items v st (pre @ PDict d # post) = process_items v st (pre @ post)"
proof (induction pre arbitrary: st)
  case Nil
  show ?case using assms by (simp add: dict_getitem_def)
next
  case (Cons a pre)
  show ?case by (simp add: Cons.IH split: sum.splits)
qed

lemma skipped_events:
  "handle_event (LoadsRaises (JSONDecodeError m)) = Inr Continue"
  "map_of d ''type'' = None \<Longrightarrow> handle_event (Json (PDict d)) = Inr Continue"
  "map_of d ''type'' = Some ty \<Longrightarrow> ty \<noteq> PStr ''content_block_start'' \<Longrightarrow>
   ty \<noteq> PStr ''content_block_delta'' \<Longrightarrow> ty \<noteq> PStr ''message_stop'' \<Longrightarrow>
   handle_event (Json (PDict d)) = Inr Continue"
  "map_of d ''type'' = Some (PStr ''content_block_start'') \<Longrightarrow>
   map_of d ''content_block'' = None \<Longrightarrow> handle_event (Json (PDict d)) = Inr Continue"
  "map_of d ''type'' = Some (PStr ''content_block_start'') \<Longrightarrow>
   map_of d ''content_block'' = Some (PDict cb) \<Longrightarrow> map_of cb ''text'' = None \<Longrightarrow>
   handle_event (Json (PDict d)) = Inr Continue"
  "map_of d ''type'' = Some (PStr ''content_block_delta'') \<Longrightarrow>
   map_of d ''delta'' = None \<Longrightarrow> handle_event (Json (PDict d)) = Inr Continue"
  "map_of d ''type'' = Some (PStr ''content_block_delta'') \<Longrightarrow>
   map_of d ''delta'' = Some (PDict dl) \<Longrightarrow> map_of dl ''text'' = None \<Longrightarrow>
   handle_event (Json (PDict d)) = Inr Continue"
  by (simp_all add: inner_handlers_def event_body_def dict_getitem_def)

lemma events_loop_skip:
  "handle_event ev = Inr Continue \<Longrightarrow>
   events_loop (pre @ ev # post) fin = events_loop (pre @ post) fin"
  by (induction pre) (auto split: sum.splits step.splits)

subsection \<open>The two limits, item by item and turn by turn\<close>

lemma account_image_fst: "account_image v st b = Inr st1 \<Longrightarrow> fst st1 = fst st + 1"
  by (auto simp: account_image_def Let_def split: block.splits source.splits if_splits)

lemma process_image_is_image: "process_image x = Inr b \<Longrightarrow> is_image_block b"
  by (auto simp: process_image_def process_image_body_def split: sum.splits pyval.splits if_splits list.splits)

lemma process_items_count:
  "process_items v st items = Inr (st', bs) \<Longrightarrow>
     fst st' = fst st + image_items items \<and> image_blocks bs = image_items items"
proof (induction items arbitrary: st st' bs)
  case Nil
  then show ?case by (simp add: image_items_def image_blocks_def)
next
  case (Cons item items)
  show ?case
  proof (cases "getitem item ''type''")
    case (Inl e)
    with Cons.prems show ?thesis by simp
  next
    case (Inr ty)
    consider (tx) "ty = PStr ''text''" | (image) "ty = PStr ''image_url''"
      | (other) "ty \<noteq> PStr ''text''" "ty \<noteq> PStr ''image_url''" by blast
    then show ?thesis
    proof cases
      case tx
      with Inr Cons.prems obtain t bs' where
        r: "process_items v st items = Inr (st', bs')" and b: "bs = TextBlock t # bs'"
        by (auto split: sum.splits)
      from Cons.IH [OF r] tx Inr b show ?thesis
        by (simp add: image_items_def image_blocks_def is_image_item_def)
    next
      case image
      with Inr Cons.prems obtain img b st1 bs' where
        p: "process_image img = Inr b" and a: "account_image v st b = Inr st1"
        and r: "process_items v st1 items = Inr (st', bs')" and b: "bs = b # bs'"
        by (auto split: sum.splits if_splits)
      from Cons.IH [OF r] image Inr b account_image_fst [OF a] process_image_is_image [OF p]
      show ?thesis
        by (simp add: image_items_def image_blocks_def is_image_item_def)
    next
      case other
      with Inr Cons.prems have r: "process_items v st items = Inr (st', bs)" by simp
      from Cons.IH [OF r] other Inr show ?thesis
        by (simp add: image_items_def image_blocks_def is_image_item_def)
    qed
  qed
qed

lemma account_image_max [simp]:
  "account_image (v\<lparr>MAX_IMAGES := mx\<rparr>) st b = account_image v st b"
  by (simp add: account_image_def Let_def split: block.splits source.splits)

lemma process_items_max:
  "process_items v st items = Inr (st', bs) \<Longrightarrow>
   process_items (v\<lparr>MAX_IMAGES := mx\<rparr>) st items =
     (if 0 < image_items items \<and> mx < int (fst st') then Inl (too_many_images mx)
      else Inr (st', bs))"
proof (induction items arbitrary: st st' bs)
  case Nil
  then show ?case by (simp add: image_items_def)
next
  case (Cons item items)
  show ?case
  proof (cases "getitem item ''type''")
    case (Inl e)
    with Cons.prems show ?thesis by simp
  next
    case (Inr ty)
    consider (tx) "ty = PStr ''text''" | (image) "ty = PStr ''image_url''"
      | (other) "ty \<noteq> PStr ''text''" "ty \<noteq> PStr ''image_url''" by blast
    then show ?thesis
    proof cases
      case tx
      with Inr Cons.prems obtain t bs' where
        g: "getitem item ''text'' = Inr t" and
        r: "process_items v st items = Inr (st', bs')" and b: "bs = TextBlock t # bs'"
        by (auto split: sum.splits)
      from Cons.IH [OF r] tx Inr b g show ?thesis
        by (simp add: image_items_def is_image_item_def)
    next
      case image
      with Inr Cons.prems obtain img b st1 bs' where
        lt: "int (fst st) < MAX_IMAGES v" and
        g: "getitem item ''image_url'' = Inr img" and
        p: "process_image img = Inr b" and a: "account_image v st b = Inr st1"
        and r: "process_items v st1 items = Inr (st', bs')" and b: "bs = b # bs'"
        by (auto split: sum.splits if_splits)
      have c: "fst st' = fst st + 1 + image_items items"
        using process_items_count [OF r] account_image_fst [OF a] by simp
      have n: "image_items (item # items) = Suc (image_items items)"
        using image Inr by (simp add: image_items_def is_image_item_def)
      show ?thesis
      proof (cases "mx \<le> int (fst st)")
        case True
        with image Inr c n show ?thesis by (simp add: too_many_images_def)
      next
        case False
        with Cons.IH [OF r] image Inr b g p a c n show ?thesis
          by (auto simp: too_many_images_def)
      qed
    next
      case other
      with Inr Cons.prems have r: "process_items v st items = Inr (st', bs)" by simp
      from Cons.IH [OF r] other Inr show ?thesis
        by (simp add: image_items_def is_image_item_def)
    qed
  qed
qed


lemma process_content_count:
  "process_content v st m = Inr (st', bs) \<Longrightarrow>
     fst st' = fst st + turn_image_items m \<and> image_blocks bs = turn_image_items m"
proof (cases "dict_get m ''content'' PNone")
  case (PList items)
  assume "process_content v st m = Inr (st', bs)"
  with PList have "process_items v st items = Inr (st', bs)"
    by (simp add: process_content_def)
  from process_items_count [OF this] PList show ?thesis
    by (simp add: turn_image_items_def)
qed (auto simp: process_content_def turn_image_items_def image_blocks_def)

lemma process_content_max:
  "process_content v st m = Inr (st', bs) \<Longrightarrow>
   process_content (v\<lparr>MAX_IMAGES := mx\<rparr>) st m =
     (if 0 < turn_image_items m \<and> mx < int (fst st') then Inl (too_many_images mx)
      else Inr (st', bs))"
proof (cases "dict_get m ''content'' PNone")
  case (PList items)
  assume "process_content v st m = Inr (st', bs)"
  with PList have "process_items v st items = Inr (st', bs)"
    by (simp add: process_content_def)
  from process_items_max [OF this, of mx] PList show ?thesis
    by (simp add: turn_image_items_def process_content_def)
qed (auto simp: process_content_def turn_image_items_def)

lemma process_message_count:
  assumes "process_message v st m = Inr (st', t)"
  shows "fst st' = fst st + turn_image_items m \<and> image_blocks (content t) = turn_image_items m"
proof -
  from assms obtain bs r where
    c: "process_content v st m = Inr (st', bs)" and t: "t = \<lparr>role = r, content = bs\<rparr>"
    by (auto simp: process_message_def split: sum.splits)
  from process_content_count [OF c] t show ?thesis by simp
qed

lemma process_message_max:
  assumes "process_message v st m = Inr (st', t)"
  shows "process_message (v\<lparr>MAX_IMAGES := mx\<rparr>) st m =
     (if 0 < turn_image_items m \<and> mx < int (fst st') then Inl (too_many_images mx)
      else Inr (st', t))"
proof -
  from assms obtain bs r where
    c: "process_content v st m = Inr (st', bs)" and
    g: "dict_getitem m ''role'' = Inr r" and t: "t = \<lparr>role = r, content = bs\<rparr>"
    by (auto simp: process_message_def split: sum.splits)
  from process_content_max [OF c, of mx] g t show ?thesis
    by (simp add: process_message_def)
qed

lemma process_messages_count:
  "process_messages v st ms = Inr (st', ts) \<Longrightarrow>
     fst st' = fst st + turns_image_items ms
     \<and> sum_list (map (\<lambda>t. image_blocks (content t)) ts) = turns_image_items ms"
proof (induction ms arbitrary: st st' ts)
  case Nil
  then show ?case by (simp add: turns_image_items_def)
next
  case (Cons m ms)
  from Cons.prems obtain st1 t ts' where
    a: "process_message v st m = Inr (st1, t)" and
    r: "process_messages v st1 ms = Inr (st', ts')" and ts: "ts = t # ts'"
    by (auto split: sum.splits)
  from process_message_count [OF a] Cons.IH [OF r] ts show ?case
    by (simp add: turns_image_items_def)
qed

lemma process_messages_max:
  "process_messages v st ms = Inr (st', ts) \<Longrightarrow>
   process_messages (v\<lparr>MAX_IMAGES := mx\<rparr>) st ms =
     (if 0 < turns_image_items ms \<and> mx < int (fst st') then Inl (too_many_images mx)
      else Inr (st', ts))"
proof (induction ms arbitrary: st st' ts)
  case Nil
  then show ?case by (simp add: turns_image_items_def)
next
  case (Cons m ms)
  from Cons.prems obtain st1 t ts' where
    a: "process_message v st m = Inr (st1, t)" and
    r: "process_messages v st1 ms = Inr (st', ts')" and ts: "ts = t # ts'"
    by (auto split: sum.splits)
  have c: "fst st' = fst st1 + turns_image_items ms"
    using process_messages_count [OF r] by simp
  have n: "turns_image_items (m # ms) = turn_image_items m + turns_image_items ms"
    by (simp add: turns_image_items_def)
  show ?case
    using process_message_max [OF a, of mx] Cons.IH [OF r] ts c n a r
    by (auto split: if_splits)
qed


lemma total_size_nonneg: "0 \<le> total_size ds"
  by (induction ds) (simp_all add: total_size_def image_size_def)

lemma base64_data_Cons: "base64_data (b # bs) = base64_data [b] @ base64_data bs"
  by (cases "(b # bs)" rule: base64_data.cases) auto

lemma total_size_append: "total_size (xs @ ys) = total_size xs + total_size ys"
  by (simp add: total_size_def)

lemma account_image_snd:
  "account_image v st b = Inr st1 \<Longrightarrow> snd st1 = snd st + total_size (base64_data [b])"
  by (auto simp: account_image_def Let_def total_size_def
           split: block.splits source.splits if_splits)

lemma account_image_ceiling:
  "account_image v st b = Inr st1 \<Longrightarrow>
   account_image (v\<lparr>MAX_IMAGE_SIZE_MB := mb\<rparr>) st b =
     (if base64_data [b] \<noteq> [] \<and> of_int (mb * 1024 * 1024) < snd st1
      then Inl (images_too_large mb) else Inr st1)"
  by (auto simp: account_image_def Let_def images_too_large_def
           split: block.splits source.splits if_splits)

lemma process_items_size:
  "process_items v st items = Inr (st', bs) \<Longrightarrow>
     snd st' = snd st + total_size (base64_data bs)"
proof (induction items arbitrary: st st' bs)
  case Nil
  then show ?case by (simp add: total_size_def)
next
  case (Cons item items)
  show ?case
  proof (cases "getitem item ''type''")
    case (Inl e)
    with Cons.prems show ?thesis by simp
  next
    case (Inr ty)
    consider (tx) "ty = PStr ''text''" | (image) "ty = PStr ''image_url''"
      | (other) "ty \<noteq> PStr ''text''" "ty \<noteq> PStr ''image_url''" by blast
    then show ?thesis
    proof cases
      case tx
      with Inr Cons.prems obtain t bs' where
        r: "process_items v st items = Inr (st', bs')" and b: "bs = TextBlock t # bs'"
        by (auto split: sum.splits)
      from Cons.IH [OF r] b show ?thesis by simp
    next
      case image
      with Inr Cons.prems obtain img b st1 bs' where
        a: "account_image v st b = Inr st1"
        and r: "process_items v st1 items = Inr (st', bs')" and b: "bs = b # bs'"
        by (auto split: sum.splits if_splits)
      from Cons.IH [OF r] account_image_snd [OF a] b show ?thesis
        by (simp add: base64_data_Cons [of b bs'] total_size_append)
    next
      case other
      with Inr Cons.prems have r: "process_items v st items = Inr (st', bs)" by simp
      from Cons.IH [OF r] show ?thesis .
    qed
  qed
qed

lemma process_items_ceiling:
  "process_items v st items = Inr (st', bs) \<Longrightarrow>
   process_items (v\<lparr>MAX_IMAGE_SIZE_MB := mb\<rparr>) st items =
     (if base64_data bs \<noteq> [] \<and> of_int (mb * 1024 * 1024) < snd st'
      then Inl (images_too_large mb) else Inr (st', bs))"
proof (induction items arbitrary: st st' bs)
  case Nil
  then show ?case by simp
next
  case (Cons item items)
  show ?case
  proof (cases "getitem item ''type''")
    case (Inl e)
    with Cons.prems show ?thesis by simp
  next
    case (Inr ty)
    consider (tx) "ty = PStr ''text''" | (image) "ty = PStr ''image_url''"
      | (other) "ty \<noteq> PStr ''text''" "ty \<noteq> PStr ''image_url''" by blast
    then show ?thesis
    proof cases
      case tx
      with Inr Cons.prems obtain t bs' where
        g: "getitem item ''text'' = Inr t" and
        r: "process_items v st items = Inr (st', bs')" and b: "bs = TextBlock t # bs'"
        by (auto split: sum.splits)
      from Cons.IH [OF r] tx Inr b g show ?thesis by simp
    next
      case image
      with Inr Cons.prems obtain img b st1 bs' where
        lt: "int (fst st) < MAX_IMAGES v" and
        g: "getitem item ''image_url'' = Inr img" and
        p: "process_image img = Inr b" and a: "account_image v st b = Inr st1"
        and r: "process_items v st1 items = Inr (st', bs')" and b: "bs = b # bs'"
        by (auto split: sum.splits if_splits)
      have s: "snd st' = snd st1 + total_size (base64_data bs')"
        using process_items_size [OF r] .
      have ge: "snd st1 \<le> snd st'"
        using s total_size_nonneg [of "base64_data bs'"] by simp
      have d: "base64_data bs = base64_data [b] @ base64_data bs'"
        using b base64_data_Cons [of b bs'] by simp
      have e: "base64_data bs' = [] \<Longrightarrow> snd st' = snd st1"
        using s by (simp add: total_size_def)
      show ?thesis
        using Cons.IH [OF r] account_image_ceiling [OF a, of mb] image Inr b g p lt ge d e
        by (auto split: if_splits)
    next
      case other
      with Inr Cons.prems have r: "process_items v st items = Inr (st', bs)" by simp
      from Cons.IH [OF r] other Inr show ?thesis by simp
    qed
  qed
qed


lemma process_content_size:
  "process_content v st m = Inr (st', bs) \<Longrightarrow>
     snd st' = snd st + total_size (base64_data bs)"
proof (cases "dict_get m ''content'' PNone")
  case (PList items)
  assume "process_content v st m = Inr (st', bs)"
  with PList have "process_items v st items = Inr (st', bs)"
    by (simp add: process_content_def)
  from process_items_size [OF this] show ?thesis .
qed (auto simp: process_content_def total_size_def)

lemma process_content_ceiling:
  "process_content v st m = Inr (st', bs) \<Longrightarrow>
   process_content (v\<lparr>MAX_IMAGE_SIZE_MB := mb\<rparr>) st m =
     (if base64_data bs \<noteq> [] \<and> of_int (mb * 1024 * 1024) < snd st'
      then Inl (images_too_large mb) else Inr (st', bs))"
proof (cases "dict_get m ''content'' PNone")
  case (PList items)
  assume "process_content v st m = Inr (st', bs)"
  with PList have "process_items v st items = Inr (st', bs)"
    by (simp add: process_content_def)
  from process_items_ceiling [OF this, of mb] PList show ?thesis
    by (simp add: process_content_def)
qed (auto simp: process_content_def)

lemma process_message_size:
  assumes "process_message v st m = Inr (st', t)"
  shows "snd st' = snd st + total_size (base64_data (content t))"
proof -
  from assms obtain bs r where
    c: "process_content v st m = Inr (st', bs)" and t: "t = \<lparr>role = r, content = bs\<rparr>"
    by (auto simp: process_message_def split: sum.splits)
  from process_content_size [OF c] t show ?thesis by simp
qed

lemma process_message_ceiling:
  assumes "process_message v st m = Inr (st', t)"
  shows "process_message (v\<lparr>MAX_IMAGE_SIZE_MB := mb\<rparr>) st m =
     (if base64_data (content t) \<noteq> [] \<and> of_int (mb * 1024 * 1024) < snd st'
      then Inl (images_too_large mb) else Inr (st', t))"
proof -
  from assms obtain bs r where
    c: "process_content v st m = Inr (st', bs)" and
    g: "dict_getitem m ''role'' = Inr r" and t: "t = \<lparr>role = r, content = bs\<rparr>"
    by (auto simp: process_message_def split: sum.splits)
  from process_content_ceiling [OF c, of mb] g t show ?thesis
    by (simp add: process_message_def)
qed

lemma process_messages_size:
  "process_messages v st ms = Inr (st', ts) \<Longrightarrow>
     snd st' = snd st + total_size (concat (map (\<lambda>t. base64_data (content t)) ts))"
proof (induction ms arbitrary: st st' ts)
  case Nil
  then show ?case by (simp add: total_size_def)
next
  case (Cons m ms)
  from Cons.prems obtain st1 t ts' where
    a: "process_message v st m = Inr (st1, t)" and
    r: "process_messages v st1 ms = Inr (st', ts')" and ts: "ts = t # ts'"
    by (auto split: sum.splits)
  from process_message_size [OF a] Cons.IH [OF r] ts show ?case
    by (simp add: total_size_append)
qed

lemma process_messages_ceiling:
  "process_messages v st ms = Inr (st', ts) \<Longrightarrow>
   process_messages (v\<lparr>MAX_IMAGE_SIZE_MB := mb\<rparr>) st ms =
     (if concat (map (\<lambda>t. base64_data (content t)) ts) \<noteq> []
         \<and> of_int (mb * 1024 * 1024) < snd st'
      then Inl (images_too_large mb) else Inr (st', ts))"
proof (induction ms arbitrary: st st' ts)
  case Nil
  then show ?case by simp
next
  case (Cons m ms)
  from Cons.prems obtain st1 t ts' where
    a: "process_message v st m = Inr (st1, t)" and
    r: "process_messages v st1 ms = Inr (st', ts')" and ts: "ts = t # ts'"
    by (auto split: sum.splits)
  have s: "snd st' = snd st1 + total_size (concat (map (\<lambda>t. base64_data (content t)) ts'))"
    using process_messages_size [OF r] .
  have ge: "snd st1 \<le> snd st'"
    using s total_size_nonneg [of "concat (map (\<lambda>t. base64_data (content t)) ts')"] by simp
  have e: "snd st' = snd st1" if "concat (map (\<lambda>t. base64_data (content t)) ts') = []"
    unfolding s that by (simp add: total_size_def)
  show ?case
    using process_message_ceiling [OF a, of mb] Cons.IH [OF r] ts a r ge e
    by (auto split: if_splits)
qed

lemma prepare_payload_Inr:
  "prepare_payload repr v model_id msgs body = Inr p \<Longrightarrow>
   \<exists>sys turns st. pop_system_message msgs = Inr (sys, turns)
     \<and> process_messages v (0, 0) turns = Inr (st, messages p)"
  by (auto simp: prepare_payload_def Let_def split: sum.splits prod.splits)

lemma prepare_payload_max:
  assumes "prepare_payload repr v model_id msgs body = Inr p"
  shows "payload_image_blocks p = call_image_items msgs"
    and "prepare_payload repr (v\<lparr>MAX_IMAGES := mx\<rparr>) model_id msgs body =
     (if 0 < call_image_items msgs \<and> mx < int (call_image_items msgs)
      then Inl (too_many_images mx) else Inr p)"
proof -
  from prepare_payload_Inr [OF assms] obtain sys turns st where
    pop: "pop_system_message msgs = Inr (sys, turns)" and
    pm: "process_messages v (0, 0) turns = Inr (st, messages p)" by blast
  have n: "call_image_items msgs = turns_image_items turns"
    using pop by (simp add: call_image_items_def)
  from process_messages_count [OF pm] n
  show "payload_image_blocks p = call_image_items msgs"
    by (simp add: payload_image_blocks_def)
  from process_messages_count [OF pm] n have f: "fst st = call_image_items msgs" by simp
  from process_messages_max [OF pm, of mx] f n pop pm assms
  show "prepare_payload repr (v\<lparr>MAX_IMAGES := mx\<rparr>) model_id msgs body =
     (if 0 < call_image_items msgs \<and> mx < int (call_image_items msgs)
      then Inl (too_many_images mx) else Inr p)"
    by (auto simp: prepare_payload_def Let_def)
qed

lemma prepare_payload_ceiling:
  assumes "prepare_payload repr v model_id msgs body = Inr p"
  shows "prepare_payload repr (v\<lparr>MAX_IMAGE_SIZE_MB := mb\<rparr>) model_id msgs body =
     (if payload_base64_data p \<noteq> []
         \<and> of_int (mb * 1024 * 1024) < total_size (payload_base64_data p)
      then Inl (images_too_large mb) else Inr p)"
proof -
  from prepare_payload_Inr [OF assms] obtain sys turns st where
    pop: "pop_system_message msgs = Inr (sys, turns)" and
    pm: "process_messages v (0, 0) turns = Inr (st, messages p)" by blast
  from process_messages_size [OF pm]
  have s: "snd st = total_size (payload_base64_data p)"
    by (simp add: payload_base64_data_def)
  from process_messages_ceiling [OF pm, of mb] s pop pm assms
  show ?thesis
    by (auto simp: prepare_payload_def Let_def payload_base64_data_def)
qed

lemma prepare_payload_too_many:
  assumes "0 \<le> MAX_IMAGES v" "MAX_IMAGES v < int (call_image_items msgs)"
  shows "\<exists>e. prepare_payload repr v model_id msgs body = Inl e"
proof (cases "prepare_payload repr v model_id msgs body")
  case (Inl e)
  then show ?thesis by blast
next
  case (Inr p)
  from prepare_payload_max(2) [OF Inr, of "MAX_IMAGES v"] assms Inr
  show ?thesis by simp
qed

lemma pipe_prepare_failure:
  "prepare_payload repr v model_id msgs body = Inl e \<Longrightarrow>
   pipe repr post v user_message model_id msgs body = Inr (Value (PStr (''Error: '' @ str_exn e)))"
  by (simp add: pipe_def try_except_def)

subsection \<open>Running the sample inputs\<close>

lemma process_image_png:
  "process_image (PDict [(''url'', PStr (png_uri d))]) = Inr (ImageBlock (Base64 ''image/png'' d))"
  by (simp add: process_image_def process_image_body_def dict_getitem_def startswith_def
        split_once_def png_uri_def)

lemma process_items_png:
  "process_items v st (png_item d # items) =
     (if MAX_IMAGES v \<le> int (fst st) then Inl (too_many_images (MAX_IMAGES v))
      else (case account_image v st (ImageBlock (Base64 ''image/png'' d)) of
              Inl e \<Rightarrow> Inl e
            | Inr st1 \<Rightarrow>
               (case process_items v st1 items of
                  Inl e \<Rightarrow> Inl e
                | Inr (st', bs) \<Rightarrow> Inr (st', ImageBlock (Base64 ''image/png'' d) # bs))))"
  by (simp add: png_item_def dict_getitem_def process_image_png too_many_images_def)

lemma is_image_item_png: "is_image_item (png_item d)"
  by (simp add: is_image_item_def png_item_def dict_getitem_def)

lemma process_messages_user_turn:
  "process_messages v st [user_turn (PList items)] =
     (case process_items v st items of
        Inl e \<Rightarrow> Inl e
      | Inr (st', bs) \<Rightarrow> Inr (st', [\<lparr>role = PStr ''user'', content = bs\<rparr>]))"
  by (simp add: process_message_def process_content_def user_turn_def dict_get_def
        dict_getitem_def split: sum.splits)

lemma pop_user_turn: "pop_system_message (user_turn c # ms) = Inr (PNone, user_turn c # ms)"
  by (simp add: user_turn_def dict_getitem_def)

lemma turn_image_items_user_turn:
  "turn_image_items (user_turn (PList items)) = image_items items"
  by (simp add: turn_image_items_def user_turn_def dict_get_def)

lemma call_image_items_user_turn:
  "call_image_items [user_turn (PList items)] = image_items items"
  by (simp add: call_image_items_def pop_user_turn turns_image_items_def
        turn_image_items_user_turn del: pop_system_message.simps)

lemma str_int_digit: "0 \<le> i \<Longrightarrow> i < 10 \<Longrightarrow> str_int i = [''0123456789'' ! nat i]"
  by (simp add: str_int_def str_nat_digit)

subsection \<open>The request and its dispatch\<close>

lemma prepare_payload_eval:
  assumes "pop_system_message msgs = Inr (sys, turns)"
    and "process_messages v (0, 0) turns = Inr (st, ts)"
  shows "prepare_payload repr v model_id msgs body =
     Inr \<lparr>model = model_id, messages = ts,
          max_tokens = dict_get body ''max_tokens'' (PInt (DEFAULT_MAX_TOKENS v)),
          temperature = dict_get body ''temperature'' (PFloat (DEFAULT_TEMPERATURE v)),
          top_k = dict_get body ''top_k'' (PInt (DEFAULT_TOP_K v)),
          top_p = dict_get body ''top_p'' (PFloat (DEFAULT_TOP_P v)),
          stop_sequences = dict_get body ''stop'' (PList []),
          stream = dict_get body ''stream'' (PBool False),
          system = (if truthy sys then Some (py_str repr sys) else None)\<rparr>"
  using assms by (simp add: prepare_payload_def Let_def dict_get_clean_body)

lemma prepare_payload_cases:
  "prepare_payload repr v model_id msgs body = Inr p \<Longrightarrow>
   \<exists>sys turns st. pop_system_message msgs = Inr (sys, turns)
     \<and> process_messages v (0, 0) turns = Inr (st, messages p)
     \<and> max_tokens p = dict_get body ''max_tokens'' (PInt (DEFAULT_MAX_TOKENS v))
     \<and> temperature p = dict_get body ''temperature'' (PFloat (DEFAULT_TEMPERATURE v))
     \<and> top_k p = dict_get body ''top_k'' (PInt (DEFAULT_TOP_K v))
     \<and> top_p p = dict_get body ''top_p'' (PFloat (DEFAULT_TOP_P v))
     \<and> stop_sequences p = dict_get body ''stop'' (PList [])
     \<and> stream p = dict_get body ''stream'' (PBool False)
     \<and> system p = (if truthy sys then Some (py_str repr sys) else None)"
  by (auto simp: prepare_payload_def Let_def dict_get_clean_body split: sum.splits prod.splits)

lemma pipe_dispatch:
  "prepare_payload repr v model_id msgs body = Inr p \<Longrightarrow>
   pipe repr post v user_message model_id msgs body =
     (if truthy (stream p) then Inr (Stream (stream_response post p))
      else (case get_completion post p of Inl e \<Rightarrow> Inr (Value (PStr (''Error: '' @ str_exn e)))
            | Inr s \<Rightarrow> Inr (Value s)))"
  by (simp add: pipe_def try_except_def split: sum.splits)

lemma get_completion_returns: "\<exists>s. get_completion post p = Inr s"
  by (simp add: get_completion_def try_except_def split: sum.splits)

lemma stream_response_no_escape: "\<exists>cs. stream_response post p = Generator cs None"
  by (auto simp: stream_response_def split: sum.splits prod.splits option.splits)

section \<open>The claims of the specification\<close>

text \<open>
  C1. No exception escapes from \<^verbatim>\<open>pipe\<close>: it always returns. A validation failure
  while the request is prepared is returned as the string \<open>Error: ...\<close>. Without streaming
  the result is always a value, and a transport failure, a non-success status and a
  failure to parse the response are each returned as \<open>Error getting completion: ...\<close>.
  With streaming the result is a generator from which no exception escapes; a transport
  failure or a non-success status makes it yield one error chunk and end, and a failure
  while the events are consumed makes it yield the chunks produced so far, then one final
  error chunk, and end.
\<close>

theorem pipe_never_raises:
  "(\<exists>res. pipe repr post v user_message model_id msgs body = Inr res)
   \<and> (prepare_payload repr v model_id msgs body = Inl e1 \<longrightarrow>
        pipe repr post v user_message model_id msgs body
          = Inr (Value (PStr (''Error: '' @ str_exn e1))))
   \<and> (prepare_payload repr v model_id msgs body = Inr p \<and> \<not> truthy (stream p) \<longrightarrow>
        (\<exists>s. pipe repr post v user_message model_id msgs body = Inr (Value s))
        \<and> (post p False = Inl e2 \<longrightarrow>
             pipe repr post v user_message model_id msgs body
               = Inr (Value (PStr (''Error getting completion: '' @ str_exn e2))))
        \<and> (post p False = Inr r \<and> status_code r \<noteq> 200 \<longrightarrow>
             pipe repr post v user_message model_id msgs body
               = Inr (Value (PStr (''Error getting completion: API Error: ''
                    @ str_int (status_code r) @ '' - '' @ body_text r))))
        \<and> (post p False = Inr r \<and> status_code r = 200 \<and> json_result r = Inl e3 \<longrightarrow>
             pipe repr post v user_message model_id msgs body
               = Inr (Value (PStr (''Error getting completion: '' @ str_exn e3)))))
   \<and> (prepare_payload repr v model_id msgs body = Inr p \<and> truthy (stream p) \<longrightarrow>
        (\<exists>cs. pipe repr post v user_message model_id msgs body
                = Inr (Stream (Generator cs None)))
        \<and> (post p True = Inl e2 \<longrightarrow>
             pipe repr post v user_message model_id msgs body
               = Inr (Stream (Generator [PStr (''Error during streaming: '' @ str_exn e2)] None)))
        \<and> (post p True = Inr r \<and> status_code r \<noteq> 200 \<longrightarrow>
             pipe repr post v user_message model_id msgs body
               = Inr (Stream (Generator [PStr (''Error during streaming: API Error: ''
                    @ str_int (status_code r) @ '' - '' @ body_text r)] None)))
        \<and> (post p True = Inr r \<and> status_code r = 200
             \<and> events_loop (events r) (stream_end r) = (cs, Some e3) \<longrightarrow>
             pipe repr post v user_message model_id msgs body
               = Inr (Stream (Generator
                    (cs @ [PStr (''Error during streaming: '' @ str_exn e3)]) None))))"
proof (intro conjI impI)
  show "\<exists>res. pipe repr post v user_message model_id msgs body = Inr res"
    by (simp add: pipe_def try_except_def split: sum.splits)
next
  assume "prepare_payload repr v model_id msgs body = Inl e1"
  then show "pipe repr post v user_message model_id msgs body
          = Inr (Value (PStr (''Error: '' @ str_exn e1)))"
    by (rule pipe_prepare_failure)
next
  assume a: "prepare_payload repr v model_id msgs body = Inr p \<and> \<not> truthy (stream p)"
  then have d: "pipe repr post v user_message model_id msgs body =
      (case get_completion post p of Inl e \<Rightarrow> Inr (Value (PStr (''Error: '' @ str_exn e)))
            | Inr s \<Rightarrow> Inr (Value s))"
    using pipe_dispatch [of repr v model_id msgs body p post user_message] by simp
  from get_completion_returns [of post p] d
  show "\<exists>s. pipe repr post v user_message model_id msgs body = Inr (Value s)" by auto
  { assume "post p False = Inl e2"
    then show "pipe repr post v user_message model_id msgs body
               = Inr (Value (PStr (''Error getting completion: '' @ str_exn e2)))"
      by (simp add: d get_completion_def get_completion_body_def try_except_def) }
  { assume "post p False = Inr r \<and> status_code r \<noteq> 200"
    then show "pipe repr post v user_message model_id msgs body
               = Inr (Value (PStr (''Error getting completion: API Error: ''
                    @ str_int (status_code r) @ '' - '' @ body_text r)))"
      by (simp add: d get_completion_def get_completion_body_def try_except_def api_error_def) }
  { assume "post p False = Inr r \<and> status_code r = 200 \<and> json_result r = Inl e3"
    then show "pipe repr post v user_message model_id msgs body
               = Inr (Value (PStr (''Error getting completion: '' @ str_exn e3)))"
      by (simp add: d get_completion_def get_completion_body_def try_except_def) }
next
  assume a: "prepare_payload repr v model_id msgs body = Inr p \<and> truthy (stream p)"
  then have d: "pipe repr post v user_message model_id msgs body =
      Inr (Stream (stream_response post p))"
    using pipe_dispatch [of repr v model_id msgs body p post user_message] by simp
  from stream_response_no_escape [of post p] d
  show "\<exists>cs. pipe repr post v user_message model_id msgs body
                = Inr (Stream (Generator cs None))" by auto
  { assume "post p True = Inl e2"
    then show "pipe repr post v user_message model_id msgs body
               = Inr (Stream (Generator [PStr (''Error during streaming: '' @ str_exn e2)] None))"
      by (simp add: d stream_response_def) }
  { assume "post p True = Inr r \<and> status_code r \<noteq> 200"
    then show "pipe repr post v user_message model_id msgs body
               = Inr (Stream (Generator [PStr (''Error during streaming: API Error: ''
                    @ str_int (status_code r) @ '' - '' @ body_text r)] None))"
      by (simp add: d stream_response_def api_error_def) }
  { assume "post p True = Inr r \<and> status_code r = 200
             \<and> events_loop (events r) (stream_end r) = (cs, Some e3)"
    then show "pipe repr post v user_message model_id msgs body
               = Inr (Stream (Generator
                    (cs @ [PStr (''Error during streaming: '' @ str_exn e3)]) None))"
      by (simp add: d stream_response_def) }
qed

text \<open>
  A head turn without a \<open>role\<close> key, or a system head turn without a \<open>content\<close> key,
  makes \<^verbatim>\<open>pop_system_message\<close> raise \<open>KeyError\<close>; inside \<^verbatim>\<open>pipe\<close> that is a
  validation failure.
\<close>

lemma pop_system_message_missing_key:
  "map_of m ''role'' = None \<Longrightarrow> pop_system_message (m # ms) = Inl (KeyError (quote ''role''))"
  "map_of m ''role'' = Some (PStr ''system'') \<Longrightarrow> map_of m ''content'' = None \<Longrightarrow>
   pop_system_message (m # ms) = Inl (KeyError (quote ''content''))"
  by (simp_all add: dict_getitem_def)

text \<open>
  C3. When the first turn has role \<open>"system"\<close>, extraction returns that turn's content and
  the list without exactly that first turn. When the list is empty, or its first turn has
  another role, it returns no system content (\<open>None\<close>) and the list unchanged. Only the
  head is ever inspected: every later turn, whatever its role, is still in the returned
  list, in its place.
\<close>

theorem pop_system_message_spec:
  "(map_of m ''role'' = Some (PStr ''system'') \<and> map_of m ''content'' = Some c
      \<longrightarrow> pop_system_message (m # ms) = Inr (c, ms))
   \<and> (map_of m ''role'' = Some r \<and> r \<noteq> PStr ''system''
      \<longrightarrow> pop_system_message (m # ms) = Inr (PNone, m # ms))
   \<and> pop_system_message [] = Inr (PNone, [])"
  by (simp add: dict_getitem_def)

theorem pop_system_message_spec_witness:
  "pop_system_message
     [[(''role'', PStr ''system''), (''content'', PStr ''Be terse'')],
      [(''role'', PStr ''user''), (''content'', PStr ''Hi'')],
      [(''role'', PStr ''system''), (''content'', PStr ''late'')]]
   = Inr (PStr ''Be terse'',
      [[(''role'', PStr ''user''), (''content'', PStr ''Hi'')],
       [(''role'', PStr ''system''), (''content'', PStr ''late'')]])
   \<and> pop_system_message
     [[(''role'', PStr ''user''), (''content'', PStr ''Hi'')],
      [(''role'', PStr ''system''), (''content'', PStr ''late'')]]
   = Inr (PNone,
      [[(''role'', PStr ''user''), (''content'', PStr ''Hi'')],
       [(''role'', PStr ''system''), (''content'', PStr ''late'')]])"
  using pop_system_message_spec
      [of "[(''role'', PStr ''system''), (''content'', PStr ''Be terse'')]"
          "PStr ''Be terse''"
          "[[(''role'', PStr ''user''), (''content'', PStr ''Hi'')],
            [(''role'', PStr ''system''), (''content'', PStr ''late'')]]"
          "PStr ''user''"]
    pop_system_message_spec
      [of "[(''role'', PStr ''user''), (''content'', PStr ''Hi'')]"
          "PStr ''Be terse''"
          "[[(''role'', PStr ''system''), (''content'', PStr ''late'')]]"
          "PStr ''user''"]
  by simp

lemma str_int_429: "str_int 429 = ''429''"
  by (simp add: str_int_def str_nat.simps [of 429] str_nat.simps [of 42] str_nat.simps [of 4])

lemma process_messages_user_plain:
  "process_messages v st [user_turn (PStr s)] =
     Inr (st, [\<lparr>role = PStr ''user'', content = [TextBlock (PStr s)]\<rparr>])"
  by (simp add: process_message_def process_content_def user_turn_def dict_get_def
        dict_getitem_def)

lemma prepare_payload_hi:
  "prepare_payload repr v model_id [user_turn (PStr s)] body =
     Inr \<lparr>model = model_id,
          messages = [\<lparr>role = PStr ''user'', content = [TextBlock (PStr s)]\<rparr>],
          max_tokens = dict_get body ''max_tokens'' (PInt (DEFAULT_MAX_TOKENS v)),
          temperature = dict_get body ''temperature'' (PFloat (DEFAULT_TEMPERATURE v)),
          top_k = dict_get body ''top_k'' (PInt (DEFAULT_TOP_K v)),
          top_p = dict_get body ''top_p'' (PFloat (DEFAULT_TOP_P v)),
          stop_sequences = dict_get body ''stop'' (PList []),
          stream = dict_get body ''stream'' (PBool False),
          system = None\<rparr>"
  by (simp add: prepare_payload_eval [OF pop_user_turn process_messages_user_plain])

theorem pipe_never_raises_witness:
  "pipe (\<lambda>x. []) hello_post (default_valves\<lparr>MAX_IMAGES := 0\<rparr>) ''Look''
      ''claude-3-haiku-20240307'' [user_turn (PList [png_item ''AAAA''])] []
     = Inr (Value (PStr ''Error: Maximum of 0 images per API call exceeded''))
   \<and> pipe (\<lambda>x. []) (\<lambda>p s. Inl (RequestException ''connection refused'')) default_valves ''Hi''
      ''claude-3-haiku-20240307'' [user_turn (PStr ''Hi'')] []
     = Inr (Value (PStr ''Error getting completion: connection refused''))
   \<and> pipe (\<lambda>x. [])
      (\<lambda>p s. Inr \<lparr>status_code = 429, body_text = ''slow down'',
                    json_result = Inr PNone, events = [], stream_end = None\<rparr>)
      default_valves ''Hi'' ''claude-3-haiku-20240307'' [user_turn (PStr ''Hi'')] []
     = Inr (Value (PStr ''Error getting completion: API Error: 429 - slow down''))
   \<and> pipe (\<lambda>x. [])
      (\<lambda>p s. Inr \<lparr>status_code = 200, body_text = ''<html>'',
                    json_result = Inl (JSONDecodeError ''Expecting value''),
                    events = [], stream_end = None\<rparr>)
      default_valves ''Hi'' ''claude-3-haiku-20240307'' [user_turn (PStr ''Hi'')] []
     = Inr (Value (PStr ''Error getting completion: Expecting value''))
   \<and> pipe (\<lambda>x. []) (\<lambda>p s. Inl (RequestException ''connection refused'')) default_valves ''Hi''
      ''claude-3-haiku-20240307'' [user_turn (PStr ''Hi'')] [(''stream'', PBool True)]
     = Inr (Stream (Generator [PStr ''Error during streaming: connection refused''] None))
   \<and> pipe (\<lambda>x. [])
      (\<lambda>p s. Inr \<lparr>status_code = 429, body_text = ''slow down'',
                    json_result = Inr PNone, events = [], stream_end = None\<rparr>)
      default_valves ''Hi'' ''claude-3-haiku-20240307'' [user_turn (PStr ''Hi'')]
      [(''stream'', PBool True)]
     = Inr (Stream (Generator
          [PStr ''Error during streaming: API Error: 429 - slow down''] None))
   \<and> pipe (\<lambda>x. [])
      (\<lambda>p s. Inr \<lparr>status_code = 200, body_text = [], json_result = Inr PNone,
                    events = [Json (PDict [(''type'', PStr ''content_block_start''),
                                           (''content_block'', PDict [(''text'', PStr ''Hi'')])])],
                    stream_end = Some (RequestException ''connection reset'')\<rparr>)
      default_valves ''Hi'' ''claude-3-haiku-20240307'' [user_turn (PStr ''Hi'')]
      [(''stream'', PBool True)]
     = Inr (Stream (Generator
          [PStr ''Hi'', PStr ''Error during streaming: connection reset''] None))"
proof -
  let ?refused = "\<lambda>(p::payload) (s::bool). (Inl (RequestException ''connection refused'') :: exn + response)"
  let ?r429 = "\<lparr>status_code = 429, body_text = ''slow down'',
                    json_result = Inr PNone, events = [], stream_end = None\<rparr>"
  let ?rbad = "\<lparr>status_code = 200, body_text = ''<html>'',
                    json_result = Inl (JSONDecodeError ''Expecting value''),
                    events = [], stream_end = None\<rparr>"
  let ?rbroken = "\<lparr>status_code = 200, body_text = [], json_result = Inr PNone,
                    events = [Json (PDict [(''type'', PStr ''content_block_start''),
                                           (''content_block'', PDict [(''text'', PStr ''Hi'')])])],
                    stream_end = Some (RequestException ''connection reset'')\<rparr>"
  let ?mid = "''claude-3-haiku-20240307''"
  let ?p = "\<lambda>body. \<lparr>model = ?mid,
          messages = [\<lparr>role = PStr ''user'', content = [TextBlock (PStr ''Hi'')]\<rparr>],
          max_tokens = dict_get body ''max_tokens'' (PInt (DEFAULT_MAX_TOKENS default_valves)),
          temperature = dict_get body ''temperature'' (PFloat (DEFAULT_TEMPERATURE default_valves)),
          top_k = dict_get body ''top_k'' (PInt (DEFAULT_TOP_K default_valves)),
          top_p = dict_get body ''top_p'' (PFloat (DEFAULT_TOP_P default_valves)),
          stop_sequences = dict_get body ''stop'' (PList []),
          stream = dict_get body ''stream'' (PBool False),
          system = None\<rparr>"
  have pp: "prepare_payload (\<lambda>x. []) default_valves ?mid [user_turn (PStr ''Hi'')] body = Inr (?p body)"
    for body by (rule prepare_payload_hi)
  have ns: "\<not> truthy (stream (?p []))" and st: "truthy (stream (?p [(''stream'', PBool True)]))"
    by (simp_all add: dict_get_def)
  have items: "process_items (default_valves\<lparr>MAX_IMAGES := 0\<rparr>) (0, 0) [png_item ''AAAA'']
      = Inl (too_many_images 0)"
    by (simp add: process_items_png del: process_items.simps(2))
  have pm: "process_messages (default_valves\<lparr>MAX_IMAGES := 0\<rparr>) (0, 0)
      [user_turn (PList [png_item ''AAAA''])] = Inl (too_many_images 0)"
    by (simp only: process_messages_user_turn items sum.case)
  have pf: "prepare_payload (\<lambda>x. []) (default_valves\<lparr>MAX_IMAGES := 0\<rparr>) ?mid
      [user_turn (PList [png_item ''AAAA''])] [] = Inl (too_many_images 0)"
    by (simp add: prepare_payload_def pop_user_turn pm
          del: pop_system_message.simps process_messages.simps)
  have ev: "events_loop (events ?rbroken) (stream_end ?rbroken)
      = ([PStr ''Hi''], Some (RequestException ''connection reset''))"
    by (simp add: inner_handlers_def event_body_def dict_getitem_def)
  have 1: "pipe (\<lambda>x. []) hello_post (default_valves\<lparr>MAX_IMAGES := 0\<rparr>) ''Look''
      ?mid [user_turn (PList [png_item ''AAAA''])] []
     = Inr (Value (PStr ''Error: Maximum of 0 images per API call exceeded''))"
    using pipe_never_raises [where repr = "\<lambda>x. []" and post = hello_post
        and v = "default_valves\<lparr>MAX_IMAGES := 0\<rparr>" and user_message = "''Look''"
        and model_id = ?mid and msgs = "[user_turn (PList [png_item ''AAAA''])]"
        and body = "[]" and ?e1.0 = "too_many_images 0"] pf
    by (simp add: too_many_images_def str_int_digit)
  have 2: "pipe (\<lambda>x. []) ?refused default_valves ''Hi'' ?mid [user_turn (PStr ''Hi'')] []
     = Inr (Value (PStr ''Error getting completion: connection refused''))"
    using pipe_never_raises [where repr = "\<lambda>x. []" and post = ?refused
        and v = default_valves and user_message = "''Hi''"
        and model_id = ?mid and msgs = "[user_turn (PStr ''Hi'')]"
        and body = "[]" and p = "?p []"
        and ?e2.0 = "RequestException ''connection refused''"] pp [of "[]"] ns
    by simp
  have 3: "pipe (\<lambda>x. []) (\<lambda>p s. Inr ?r429) default_valves ''Hi'' ?mid [user_turn (PStr ''Hi'')] []
     = Inr (Value (PStr ''Error getting completion: API Error: 429 - slow down''))"
    using pipe_never_raises [where repr = "\<lambda>x. []" and post = "\<lambda>p s. Inr ?r429"
        and v = default_valves and user_message = "''Hi''"
        and model_id = ?mid and msgs = "[user_turn (PStr ''Hi'')]"
        and body = "[]" and p = "?p []" and r = ?r429] pp [of "[]"] ns
    by (simp add: str_int_429)
  have 4: "pipe (\<lambda>x. []) (\<lambda>p s. Inr ?rbad) default_valves ''Hi'' ?mid [user_turn (PStr ''Hi'')] []
     = Inr (Value (PStr ''Error getting completion: Expecting value''))"
    using pipe_never_raises [where repr = "\<lambda>x. []" and post = "\<lambda>p s. Inr ?rbad"
        and v = default_valves and user_message = "''Hi''"
        and model_id = ?mid and msgs = "[user_turn (PStr ''Hi'')]"
        and body = "[]" and p = "?p []" and r = ?rbad
        and ?e3.0 = "JSONDecodeError ''Expecting value''"] pp [of "[]"] ns
    by simp
  have 5: "pipe (\<lambda>x. []) ?refused default_valves ''Hi'' ?mid [user_turn (PStr ''Hi'')]
        [(''stream'', PBool True)]
     = Inr (Stream (Generator [PStr ''Error during streaming: connection refused''] None))"
    using pipe_never_raises [where repr = "\<lambda>x. []" and post = ?refused
        and v = default_valves and user_message = "''Hi''"
        and model_id = ?mid and msgs = "[user_turn (PStr ''Hi'')]"
        and body = "[(''stream'', PBool True)]" and p = "?p [(''stream'', PBool True)]"
        and ?e2.0 = "RequestException ''connection refused''"]
      pp [of "[(''stream'', PBool True)]"] st
    by simp
  have 6: "pipe (\<lambda>x. []) (\<lambda>p s. Inr ?r429) default_valves ''Hi'' ?mid [user_turn (PStr ''Hi'')]
        [(''stream'', PBool True)]
     = Inr (Stream (Generator
          [PStr ''Error during streaming: API Error: 429 - slow down''] None))"
    using pipe_never_raises [where repr = "\<lambda>x. []" and post = "\<lambda>p s. Inr ?r429"
        and v = default_valves and user_message = "''Hi''"
        and model_id = ?mid and msgs = "[user_turn (PStr ''Hi'')]"
        and body = "[(''stream'', PBool True)]" and p = "?p [(''stream'', PBool True)]"
        and r = ?r429]
      pp [of "[(''stream'', PBool True)]"] st
    by (simp add: str_int_429)
  have 7: "pipe (\<lambda>x. []) (\<lambda>p s. Inr ?rbroken) default_valves ''Hi'' ?mid [user_turn (PStr ''Hi'')]
        [(''stream'', PBool True)]
     = Inr (Stream (Generator
          [PStr ''Hi'', PStr ''Error during streaming: connection reset''] None))"
    using pipe_never_raises [where repr = "\<lambda>x. []" and post = "\<lambda>p s. Inr ?rbroken"
        and v = default_valves and user_message = "''Hi''"
        and model_id = ?mid and msgs = "[user_turn (PStr ''Hi'')]"
        and body = "[(''stream'', PBool True)]" and p = "?p [(''stream'', PBool True)]"
        and r = ?rbroken and cs = "[PStr ''Hi'']"
        and ?e3.0 = "RequestException ''connection reset''"]
      pp [of "[(''stream'', PBool True)]"] st ev
    by simp
  from 1 2 3 4 5 6 7 show ?thesis by (simp only: simp_thms)
qed

lemma get_completion_hello: "get_completion hello_post p = Inr (PStr ''Hello'')"
  by (simp add: get_completion_def get_completion_body_def hello_post_def try_except_def
        dict_getitem_def)

lemma pipe_hello:
  "prepare_payload repr v model_id msgs body = Inr p \<Longrightarrow> \<not> truthy (stream p) \<Longrightarrow>
   pipe repr hello_post v user_message model_id msgs body = Inr (Value (PStr ''Hello''))"
  by (simp add: pipe_dispatch get_completion_hello)

lemma prepare_payload_items:
  assumes "process_items v (0, 0) items = Inr (st, bs)"
  shows "prepare_payload repr v model_id [user_turn (PList items)] [] =
     Inr \<lparr>model = model_id,
          messages = [\<lparr>role = PStr ''user'', content = bs\<rparr>],
          max_tokens = PInt (DEFAULT_MAX_TOKENS v),
          temperature = PFloat (DEFAULT_TEMPERATURE v),
          top_k = PInt (DEFAULT_TOP_K v),
          top_p = PFloat (DEFAULT_TOP_P v),
          stop_sequences = PList [],
          stream = PBool False,
          system = None\<rparr>"
proof -
  have "process_messages v (0, 0) [user_turn (PList items)]
      = Inr (st, [\<lparr>role = PStr ''user'', content = bs\<rparr>])"
    by (simp only: process_messages_user_turn assms sum.case prod.case)
  from prepare_payload_eval [OF pop_user_turn this] show ?thesis
    by (simp add: dict_get_def)
qed

text \<open>
  C2, as stated, fails. With a ceiling of 1 MB and two base64 images of 2 and 1398099
  characters the sizes rounded up add to 2 + 1048575 = 1048577 bytes, beyond the ceiling of
  1048576, so the claim has the call fail; the code adds 1.5 and 1048574.25, stays below
  the ceiling and sends the request.
\<close>

theorem image_size_ceiling_counterexample:
  "1 * 1024 * 1024 < spec_total_size [replicate 2 (CHR ''A''), replicate 1398099 (CHR ''A'')]
   \<and> pipe (\<lambda>x. []) hello_post (default_valves\<lparr>MAX_IMAGE_SIZE_MB := 1\<rparr>) ''Look''
        ''claude-3-haiku-20240307''
        [user_turn (PList [png_item (replicate 2 (CHR ''A'')),
                           png_item (replicate 1398099 (CHR ''A''))])] []
      = Inr (Value (PStr ''Hello''))"
proof -
  have a: "1 * 1024 * 1024 < spec_total_size [replicate 2 (CHR ''A''), replicate 1398099 (CHR ''A'')]"
  proof -
    have "\<lceil>(3::rat) / 2\<rceil> = 2" and "\<lceil>(4194297::rat) / 4\<rceil> = 1048575"
      by (simp_all add: ceiling_eq_iff)
    then show ?thesis by (simp add: spec_total_size_def image_size_def)
  qed
  have b: "process_items (default_valves\<lparr>MAX_IMAGE_SIZE_MB := 1\<rparr>) (0, 0)
        [png_item (replicate 2 (CHR ''A'')), png_item (replicate 1398099 (CHR ''A''))]
      = Inr ((2, 4194303 / 4),
          [ImageBlock (Base64 ''image/png'' (replicate 2 (CHR ''A''))),
           ImageBlock (Base64 ''image/png'' (replicate 1398099 (CHR ''A'')))])"
    by (simp add: process_items_png account_image_def image_size_def default_valves_def
          del: process_items.simps(2))
  from a pipe_hello [OF prepare_payload_items [OF b]] show ?thesis by simp
qed

text \<open>
  C2, amended. Take a call that passes every other check, that is, one whose request \<open>p\<close>
  is assembled under some ceiling. Its cumulative size is the exact sum of
  \<open>len(base64_data) * 3/4\<close> over the base64 images of the request, with no rounding.
  Under a ceiling of \<open>mb\<close> megabytes the call fails exactly when it has a base64 image and
  that sum is greater than \<open>mb * 1024 * 1024\<close>; the error names \<open>mb\<close> and \<^verbatim>\<open>pipe\<close>
  returns it as \<open>Error: Total size of images exceeds <mb>MB limit\<close>. Otherwise, and so
  when the sum is exactly at the ceiling, the same request is assembled and the call goes
  on as it does without the limit.
\<close>

theorem image_size_ceiling:
  assumes "prepare_payload repr v model_id msgs body = Inr p"
  shows "total_size (payload_base64_data p)
           = (\<Sum>d\<leftarrow>payload_base64_data p. of_nat (length d) * 3 / 4)
     \<and> prepare_payload repr (v\<lparr>MAX_IMAGE_SIZE_MB := mb\<rparr>) model_id msgs body =
         (if payload_base64_data p \<noteq> []
             \<and> of_int (mb * 1024 * 1024) < total_size (payload_base64_data p)
          then Inl (images_too_large mb) else Inr p)
     \<and> pipe repr post (v\<lparr>MAX_IMAGE_SIZE_MB := mb\<rparr>) user_message model_id msgs body =
         (if payload_base64_data p \<noteq> []
             \<and> of_int (mb * 1024 * 1024) < total_size (payload_base64_data p)
          then Inr (Value (PStr (''Error: Total size of images exceeds '' @ str_int mb
                                   @ ''MB limit'')))
          else pipe repr post v user_message model_id msgs body)"
proof (intro conjI)
  show "total_size (payload_base64_data p)
           = (\<Sum>d\<leftarrow>payload_base64_data p. of_nat (length d) * 3 / 4)"
    by (simp add: total_size_def image_size_def [abs_def])
  show c: "prepare_payload repr (v\<lparr>MAX_IMAGE_SIZE_MB := mb\<rparr>) model_id msgs body =
         (if payload_base64_data p \<noteq> []
             \<and> of_int (mb * 1024 * 1024) < total_size (payload_base64_data p)
          then Inl (images_too_large mb) else Inr p)"
    by (rule prepare_payload_ceiling [OF assms])
  show "pipe repr post (v\<lparr>MAX_IMAGE_SIZE_MB := mb\<rparr>) user_message model_id msgs body =
         (if payload_base64_data p \<noteq> []
             \<and> of_int (mb * 1024 * 1024) < total_size (payload_base64_data p)
          then Inr (Value (PStr (''Error: Total size of images exceeds '' @ str_int mb
                                   @ ''MB limit'')))
          else pipe repr post v user_message model_id msgs body)"
  proof (cases "payload_base64_data p \<noteq> []
             \<and> of_int (mb * 1024 * 1024) < total_size (payload_base64_data p)")
    case True
    with c have "prepare_payload repr (v\<lparr>MAX_IMAGE_SIZE_MB := mb\<rparr>) model_id msgs body
        = Inl (images_too_large mb)" by simp
    from pipe_prepare_failure [OF this] True show ?thesis
      by (simp add: images_too_large_def)
  next
    case False
    with c have "prepare_payload repr (v\<lparr>MAX_IMAGE_SIZE_MB := mb\<rparr>) model_id msgs body
        = Inr p" by simp
    then have "pipe repr post (v\<lparr>MAX_IMAGE_SIZE_MB := mb\<rparr>) user_message model_id msgs body
        = pipe repr post v user_message model_id msgs body"
      by (simp add: pipe_dispatch [OF assms] pipe_dispatch)
    with False show ?thesis by (simp only: if_not_P if_False)
  qed
qed

theorem image_size_ceiling_witness:
  "total_size [replicate 4194304 (CHR ''A'')] = 3 * 1024 * 1024
   \<and> pipe (\<lambda>x. []) hello_post (default_valves\<lparr>MAX_IMAGE_SIZE_MB := 3\<rparr>) ''Look''
        ''claude-3-haiku-20240307''
        [user_turn (PList [png_item (replicate 4194304 (CHR ''A''))])] []
      = Inr (Value (PStr ''Hello''))
   \<and> pipe (\<lambda>x. []) hello_post (default_valves\<lparr>MAX_IMAGE_SIZE_MB := 3\<rparr>) ''Look''
        ''claude-3-haiku-20240307''
        [user_turn (PList [png_item (replicate 4194305 (CHR ''A''))])] []
      = Inr (Value (PStr ''Error: Total size of images exceeds 3MB limit''))"
proof -
  let ?mid = "''claude-3-haiku-20240307''"
  have a: "process_items default_valves (0, 0) [png_item (replicate 4194304 (CHR ''A''))]
      = Inr ((1, 3145728), [ImageBlock (Base64 ''image/png'' (replicate 4194304 (CHR ''A'')))])"
    by (simp add: process_items_png account_image_def image_size_def default_valves_def
          del: process_items.simps(2))
  have b: "process_items default_valves (0, 0) [png_item (replicate 4194305 (CHR ''A''))]
      = Inr ((1, 12582915 / 4),
             [ImageBlock (Base64 ''image/png'' (replicate 4194305 (CHR ''A'')))])"
    by (simp add: process_items_png account_image_def image_size_def default_valves_def
          del: process_items.simps(2))
  note pa = prepare_payload_items [OF a, of "\<lambda>x. []" ?mid]
  note pb = prepare_payload_items [OF b, of "\<lambda>x. []" ?mid]
  have 1: "total_size [replicate 4194304 (CHR ''A'')] = 3 * 1024 * 1024"
    by (simp add: total_size_def image_size_def)
  have 2: "pipe (\<lambda>x. []) hello_post (default_valves\<lparr>MAX_IMAGE_SIZE_MB := 3\<rparr>) ''Look'' ?mid
        [user_turn (PList [png_item (replicate 4194304 (CHR ''A''))])] []
      = Inr (Value (PStr ''Hello''))"
    using image_size_ceiling [OF pa, of 3 hello_post "''Look''"] pipe_hello [OF pa, of "''Look''"]
    by (simp add: payload_base64_data_def total_size_def image_size_def)
  have 3: "pipe (\<lambda>x. []) hello_post (default_valves\<lparr>MAX_IMAGE_SIZE_MB := 3\<rparr>) ''Look'' ?mid
        [user_turn (PList [png_item (replicate 4194305 (CHR ''A''))])] []
      = Inr (Value (PStr ''Error: Total size of images exceeds 3MB limit''))"
    using image_size_ceiling [OF pb, of 3 hello_post "''Look''"]
    by (simp add: payload_base64_data_def total_size_def image_size_def str_int_digit)
  from 1 2 3 show ?thesis by (simp only: simp_thms)
qed

lemma image_items_png2: "image_items [png_item d1, png_item d2] = 2"
  by (simp add: image_items_def is_image_item_png)

text \<open>
  C4, as stated, fails. With a maximum of one image and a ceiling of 1 MB, a call with two
  base64 images of 1398102 characters each (1048576.5 bytes each) has more images than
  the maximum, yet its error names the megabyte limit, not the maximum: the size of the
  first image is checked before the second image is reached.
\<close>

theorem image_count_limit_counterexample:
  "MAX_IMAGES (default_valves\<lparr>MAX_IMAGES := 1, MAX_IMAGE_SIZE_MB := 1\<rparr>)
     < int (call_image_items [user_turn (PList [png_item (replicate 1398102 (CHR ''A'')),
                                                 png_item (replicate 1398102 (CHR ''A''))])])
   \<and> pipe (\<lambda>x. []) hello_post (default_valves\<lparr>MAX_IMAGES := 1, MAX_IMAGE_SIZE_MB := 1\<rparr>)
        ''Look'' ''claude-3-haiku-20240307''
        [user_turn (PList [png_item (replicate 1398102 (CHR ''A'')),
                           png_item (replicate 1398102 (CHR ''A''))])] []
      = Inr (Value (PStr ''Error: Total size of images exceeds 1MB limit''))"
proof -
  have a: "call_image_items [user_turn (PList [png_item (replicate 1398102 (CHR ''A'')),
                           png_item (replicate 1398102 (CHR ''A''))])] = 2"
    by (simp only: call_image_items_user_turn image_items_png2)
  have b: "process_items (default_valves\<lparr>MAX_IMAGES := 1, MAX_IMAGE_SIZE_MB := 1\<rparr>) (0, 0)
        [png_item (replicate 1398102 (CHR ''A'')), png_item (replicate 1398102 (CHR ''A''))]
      = Inl (images_too_large 1)"
    by (simp add: process_items_png account_image_def image_size_def default_valves_def
          images_too_large_def del: process_items.simps(2))
  have c: "process_messages (default_valves\<lparr>MAX_IMAGES := 1, MAX_IMAGE_SIZE_MB := 1\<rparr>) (0, 0)
        [user_turn (PList [png_item (replicate 1398102 (CHR ''A'')),
                           png_item (replicate 1398102 (CHR ''A''))])]
      = Inl (images_too_large 1)"
    by (simp only: process_messages_user_turn b sum.case)
  have p: "prepare_payload (\<lambda>x. []) (default_valves\<lparr>MAX_IMAGES := 1, MAX_IMAGE_SIZE_MB := 1\<rparr>)
        ''claude-3-haiku-20240307''
        [user_turn (PList [png_item (replicate 1398102 (CHR ''A'')),
                           png_item (replicate 1398102 (CHR ''A''))])] []
      = Inl (images_too_large 1)"
    by (simp add: prepare_payload_def pop_user_turn c
          del: pop_system_message.simps process_messages.simps)
  from pipe_prepare_failure [OF p] a show ?thesis
    by (simp add: images_too_large_def str_int_digit)
qed

text \<open>
  C4, amended. Let \<open>N\<close> be the number of image items of the call: the content items of
  type \<open>image_url\<close> in the list contents of its turns, the extracted system turn aside.
  If the maximum is not negative and \<open>N\<close> exceeds it, the call fails: \<^verbatim>\<open>pipe\<close> returns
  an \<open>Error: ...\<close> string whatever the transport, and no request is assembled. For a call
  that passes every other check, that is, one whose request \<open>p\<close> is assembled under some
  maximum: \<open>p\<close> has exactly \<open>N\<close> image blocks, all \<open>N\<close> items having been converted; and
  under the maximum \<open>mx\<close> the call fails exactly when \<open>N\<close> is positive and greater than
  \<open>mx\<close>, with the error \<open>Maximum of <mx> images per API call exceeded\<close>, and otherwise
  assembles the same request and goes on as it does without the limit.
\<close>

theorem image_count_limit:
  "(0 \<le> MAX_IMAGES v \<and> MAX_IMAGES v < int (call_image_items msgs) \<longrightarrow>
      (\<exists>e. prepare_payload repr v model_id msgs body = Inl e
         \<and> pipe repr post v user_message model_id msgs body
             = Inr (Value (PStr (''Error: '' @ str_exn e)))))
   \<and> (prepare_payload repr v' model_id msgs body = Inr p \<longrightarrow>
        payload_image_blocks p = call_image_items msgs
      \<and> prepare_payload repr (v'\<lparr>MAX_IMAGES := mx\<rparr>) model_id msgs body =
          (if 0 < call_image_items msgs \<and> mx < int (call_image_items msgs)
           then Inl (too_many_images mx) else Inr p)
      \<and> pipe repr post (v'\<lparr>MAX_IMAGES := mx\<rparr>) user_message model_id msgs body =
          (if 0 < call_image_items msgs \<and> mx < int (call_image_items msgs)
           then Inr (Value (PStr (''Error: Maximum of '' @ str_int mx
                                    @ '' images per API call exceeded'')))
           else pipe repr post v' user_message model_id msgs body))"
proof (intro conjI impI)
  assume "0 \<le> MAX_IMAGES v \<and> MAX_IMAGES v < int (call_image_items msgs)"
  then obtain e where e: "prepare_payload repr v model_id msgs body = Inl e"
    using prepare_payload_too_many [of v msgs repr model_id body] by blast
  from e pipe_prepare_failure [OF e, of post user_message]
  show "\<exists>e. prepare_payload repr v model_id msgs body = Inl e
         \<and> pipe repr post v user_message model_id msgs body
             = Inr (Value (PStr (''Error: '' @ str_exn e)))"
    by blast
next
  assume a: "prepare_payload repr v' model_id msgs body = Inr p"
  show "payload_image_blocks p = call_image_items msgs"
    by (rule prepare_payload_max(1) [OF a])
  show c: "prepare_payload repr (v'\<lparr>MAX_IMAGES := mx\<rparr>) model_id msgs body =
          (if 0 < call_image_items msgs \<and> mx < int (call_image_items msgs)
           then Inl (too_many_images mx) else Inr p)"
    by (rule prepare_payload_max(2) [OF a])
  show "pipe repr post (v'\<lparr>MAX_IMAGES := mx\<rparr>) user_message model_id msgs body =
          (if 0 < call_image_items msgs \<and> mx < int (call_image_items msgs)
           then Inr (Value (PStr (''Error: Maximum of '' @ str_int mx
                                    @ '' images per API call exceeded'')))
           else pipe repr post v' user_message model_id msgs body)"
  proof (cases "0 < call_image_items msgs \<and> mx < int (call_image_items msgs)")
    case True
    with c have "prepare_payload repr (v'\<lparr>MAX_IMAGES := mx\<rparr>) model_id msgs body
        = Inl (too_many_images mx)" by simp
    from pipe_prepare_failure [OF this] True show ?thesis
      by (simp add: too_many_images_def)
  next
    case False
    with c have "prepare_payload repr (v'\<lparr>MAX_IMAGES := mx\<rparr>) model_id msgs body
        = Inr p" by simp
    then have "pipe repr post (v'\<lparr>MAX_IMAGES := mx\<rparr>) user_message model_id msgs body
        = pipe repr post v' user_message model_id msgs body"
      by (simp add: pipe_dispatch [OF a] pipe_dispatch)
    with False show ?thesis by (simp only: if_not_P if_False)
  qed
qed

theorem image_count_limit_witness:
  "isl (prepare_payload (\<lambda>x. []) (default_valves\<lparr>MAX_IMAGES := 1\<rparr>)
          ''claude-3-haiku-20240307''
          [user_turn (PList [png_item ''AAAA'', png_item ''BBBB''])] [])
   \<and> pipe (\<lambda>x. []) hello_post (default_valves\<lparr>MAX_IMAGES := 1\<rparr>) ''Look''
        ''claude-3-haiku-20240307''
        [user_turn (PList [png_item ''AAAA'', png_item ''BBBB''])] []
      = Inr (Value (PStr ''Error: Maximum of 1 images per API call exceeded''))
   \<and> pipe (\<lambda>x. []) hello_post (default_valves\<lparr>MAX_IMAGES := 2\<rparr>) ''Look''
        ''claude-3-haiku-20240307''
        [user_turn (PList [png_item ''AAAA'', png_item ''BBBB''])] []
      = Inr (Value (PStr ''Hello''))
   \<and> prepare_payload (\<lambda>x. []) (default_valves\<lparr>MAX_IMAGES := 2\<rparr>)
        ''claude-3-haiku-20240307''
        [user_turn (PList [png_item ''AAAA'', png_item ''BBBB''])] []
      = Inr \<lparr>model = ''claude-3-haiku-20240307'',
             messages = [\<lparr>role = PStr ''user'',
                          content = [ImageBlock (Base64 ''image/png'' ''AAAA''),
                                     ImageBlock (Base64 ''image/png'' ''BBBB'')]\<rparr>],
             max_tokens = PInt 4096, temperature = PFloat (4 / 5), top_k = PInt 40,
             top_p = PFloat (9 / 10), stop_sequences = PList [], stream = PBool False,
             system = None\<rparr>"
proof -
  let ?mid = "''claude-3-haiku-20240307''"
  let ?msgs = "[user_turn (PList [png_item ''AAAA'', png_item ''BBBB''])]"
  have n: "call_image_items ?msgs = 2"
    by (simp only: call_image_items_user_turn image_items_png2)
  have a: "process_items default_valves (0, 0) [png_item ''AAAA'', png_item ''BBBB'']
      = Inr ((2, 6), [ImageBlock (Base64 ''image/png'' ''AAAA''),
                      ImageBlock (Base64 ''image/png'' ''BBBB'')])"
    by (simp add: process_items_png account_image_def image_size_def default_valves_def
          del: process_items.simps(2))
  let ?p = "\<lparr>model = ?mid,
          messages = [\<lparr>role = PStr ''user'',
                       content = [ImageBlock (Base64 ''image/png'' ''AAAA''),
                                  ImageBlock (Base64 ''image/png'' ''BBBB'')]\<rparr>],
          max_tokens = PInt (DEFAULT_MAX_TOKENS default_valves),
          temperature = PFloat (DEFAULT_TEMPERATURE default_valves),
          top_k = PInt (DEFAULT_TOP_K default_valves),
          top_p = PFloat (DEFAULT_TOP_P default_valves),
          stop_sequences = PList [], stream = PBool False, system = None\<rparr>"
  have pa: "prepare_payload (\<lambda>x. []) default_valves ?mid ?msgs [] = Inr ?p"
    by (rule prepare_payload_items [OF a])
  have 1: "isl (prepare_payload (\<lambda>x. []) (default_valves\<lparr>MAX_IMAGES := 1\<rparr>) ?mid ?msgs [])"
    using image_count_limit [where v = "default_valves\<lparr>MAX_IMAGES := 1\<rparr>" and msgs = ?msgs
        and repr = "\<lambda>x. []" and model_id = ?mid and body = "[]" and post = hello_post
        and user_message = "''Look''" and v' = default_valves and mx = 1
        and p = ?p] n
    by auto
  have 2: "pipe (\<lambda>x. []) hello_post (default_valves\<lparr>MAX_IMAGES := 1\<rparr>) ''Look'' ?mid ?msgs []
      = Inr (Value (PStr ''Error: Maximum of 1 images per API call exceeded''))"
    using image_count_limit [where v' = default_valves and msgs = ?msgs
        and repr = "\<lambda>x. []" and model_id = ?mid and body = "[]" and mx = 1
        and post = hello_post and user_message = "''Look''" and p = ?p
        and v = default_valves] n pa
    by (simp add: str_int_digit)
  have 3: "pipe (\<lambda>x. []) hello_post (default_valves\<lparr>MAX_IMAGES := 2\<rparr>) ''Look'' ?mid ?msgs []
      = Inr (Value (PStr ''Hello''))"
    using image_count_limit [where v' = default_valves and msgs = ?msgs
        and repr = "\<lambda>x. []" and model_id = ?mid and body = "[]" and mx = 2
        and post = hello_post and user_message = "''Look''" and p = ?p
        and v = default_valves] n pa
      pipe_hello [OF pa, of "''Look''"]
    by simp
  have 4: "prepare_payload (\<lambda>x. []) (default_valves\<lparr>MAX_IMAGES := 2\<rparr>) ?mid ?msgs []
      = Inr \<lparr>model = ?mid,
             messages = [\<lparr>role = PStr ''user'',
                          content = [ImageBlock (Base64 ''image/png'' ''AAAA''),
                                     ImageBlock (Base64 ''image/png'' ''BBBB'')]\<rparr>],
             max_tokens = PInt 4096, temperature = PFloat (4 / 5), top_k = PInt 40,
             top_p = PFloat (9 / 10), stop_sequences = PList [], stream = PBool False,
             system = None\<rparr>"
    using image_count_limit [where v' = default_valves and msgs = ?msgs
        and repr = "\<lambda>x. []" and model_id = ?mid and body = "[]" and mx = 2
        and post = hello_post and user_message = "''Look''" and p = ?p
        and v = default_valves] n pa
    by (simp add: default_valves_def)
  from 1 2 3 4 show ?thesis by (simp only: simp_thms)
qed

text \<open>
  C5. Decoding a \<open>content_block_start\<close> event with text \<open>Hi\<close>, a \<open>content_block_delta\<close>
  event with text \<open> there\<close> and a \<open>message_stop\<close> event yields the chunks \<open>Hi\<close> and
  \<open> there\<close>, in that order, and ends: whatever events follow the \<open>message_stop\<close>, and
  however the stream would end after them, no further chunk is produced. This holds for
  the loop over the events and for the generator of \<^verbatim>\<open>stream_response\<close> on a response
  with status 200.
\<close>

theorem stream_hi_there:
  "events_loop
     (Json (PDict [(''type'', PStr ''content_block_start''),
                   (''content_block'', PDict [(''text'', PStr ''Hi'')])])
      # Json (PDict [(''type'', PStr ''content_block_delta''),
                     (''delta'', PDict [(''text'', PStr '' there'')])])
      # Json (PDict [(''type'', PStr ''message_stop'')])
      # rest) fin
     = ([PStr ''Hi'', PStr '' there''], None)
   \<and> stream_response
       (\<lambda>p s. Inr \<lparr>status_code = 200, body_text = t, json_result = j,
          events =
            Json (PDict [(''type'', PStr ''content_block_start''),
                         (''content_block'', PDict [(''text'', PStr ''Hi'')])])
            # Json (PDict [(''type'', PStr ''content_block_delta''),
                           (''delta'', PDict [(''text'', PStr '' there'')])])
            # Json (PDict [(''type'', PStr ''message_stop'')])
            # rest,
          stream_end = fin\<rparr>) p
     = Generator [PStr ''Hi'', PStr '' there''] None"
  by (simp add: stream_response_def inner_handlers_def event_body_def dict_getitem_def)

text \<open>
  C6. In the assembled request each generation parameter is the value the options bag
  holds under its key, whatever that value is, and the default when the bag has no such
  key: the configured \<open>DEFAULT_MAX_TOKENS\<close>, \<open>DEFAULT_TEMPERATURE\<close>, \<open>DEFAULT_TOP_K\<close> and
  \<open>DEFAULT_TOP_P\<close>, the empty list for the stop sequences (read from the key \<open>stop\<close>)
  and \<open>False\<close> for \<open>stream\<close>.
\<close>

theorem generation_parameters:
  assumes "prepare_payload repr v model_id msgs body = Inr p"
  shows "max_tokens p = (case map_of body ''max_tokens'' of
                           None \<Rightarrow> PInt (DEFAULT_MAX_TOKENS v) | Some x \<Rightarrow> x)
     \<and> temperature p = (case map_of body ''temperature'' of
                           None \<Rightarrow> PFloat (DEFAULT_TEMPERATURE v) | Some x \<Rightarrow> x)
     \<and> top_k p = (case map_of body ''top_k'' of
                           None \<Rightarrow> PInt (DEFAULT_TOP_K v) | Some x \<Rightarrow> x)
     \<and> top_p p = (case map_of body ''top_p'' of
                           None \<Rightarrow> PFloat (DEFAULT_TOP_P v) | Some x \<Rightarrow> x)
     \<and> stop_sequences p = (case map_of body ''stop'' of
                           None \<Rightarrow> PList [] | Some x \<Rightarrow> x)
     \<and> stream p = (case map_of body ''stream'' of
                           None \<Rightarrow> PBool False | Some x \<Rightarrow> x)"
  using prepare_payload_cases [OF assms] by (auto simp: dict_get_def)

theorem generation_parameters_witness:
  "prepare_payload (\<lambda>x. []) default_valves ''claude-3-haiku-20240307''
      [user_turn (PStr ''Hi'')]
      [(''max_tokens'', PInt 100), (''temperature'', PFloat (1 / 2)),
       (''stop'', PList [PStr ''END'']), (''user'', PStr ''u1'')]
   = Inr \<lparr>model = ''claude-3-haiku-20240307'',
          messages = [\<lparr>role = PStr ''user'', content = [TextBlock (PStr ''Hi'')]\<rparr>],
          max_tokens = PInt 100, temperature = PFloat (1 / 2), top_k = PInt 40,
          top_p = PFloat (9 / 10), stop_sequences = PList [PStr ''END''],
          stream = PBool False, system = None\<rparr>"
proof -
  let ?body = "[(''max_tokens'', PInt 100), (''temperature'', PFloat (1 / 2)),
       (''stop'', PList [PStr ''END'']), (''user'', PStr ''u1'')]"
  note h = prepare_payload_hi [of "\<lambda>x. []" default_valves "''claude-3-haiku-20240307''"
      "''Hi''" ?body]
  from generation_parameters [OF h] h show ?thesis
    by (simp add: dict_get_def default_valves_def)
qed

text \<open>
  C7. The \<open>system\<close> field of the assembled request is the extracted system content coerced
  to a string when that content is present, which the code tests as truthiness, and is
  omitted otherwise. So a non-empty string content is attached as it is; with no system
  turn, or a system turn whose content is \<open>None\<close> or the empty string, the field is
  omitted; and, \<open>repr\<close> never printing the empty string, the field is never sent empty.
\<close>

theorem system_field:
  assumes "prepare_payload repr v model_id msgs body = Inr p"
    and "pop_system_message msgs = Inr (sys, turns)"
  shows "system p = (if truthy sys then Some (py_str repr sys) else None)
     \<and> (sys = PStr s \<and> s \<noteq> [] \<longrightarrow> system p = Some s)
     \<and> (sys = PNone \<or> sys = PStr [] \<longrightarrow> system p = None)
     \<and> ((\<forall>x. repr x \<noteq> []) \<longrightarrow> system p \<noteq> Some [])"
proof -
  from prepare_payload_cases [OF assms(1)] assms(2)
  have s: "system p = (if truthy sys then Some (py_str repr sys) else None)" by auto
  have "py_str repr sys \<noteq> []" if "truthy sys" "\<forall>x. repr x \<noteq> []"
    using that by (cases sys) auto
  with s show ?thesis by auto
qed

theorem system_field_witness:
  "prepare_payload (\<lambda>x. ''?'') default_valves ''claude-3-haiku-20240307''
      [system_turn (PStr ''Be terse''), user_turn (PStr ''Hi'')] []
   = Inr \<lparr>model = ''claude-3-haiku-20240307'',
          messages = [\<lparr>role = PStr ''user'', content = [TextBlock (PStr ''Hi'')]\<rparr>],
          max_tokens = PInt 4096, temperature = PFloat (4 / 5), top_k = PInt 40,
          top_p = PFloat (9 / 10), stop_sequences = PList [],
          stream = PBool False, system = Some ''Be terse''\<rparr>
   \<and> prepare_payload (\<lambda>x. ''?'') default_valves ''claude-3-haiku-20240307''
      [user_turn (PStr ''Hi'')] []
   = Inr \<lparr>model = ''claude-3-haiku-20240307'',
          messages = [\<lparr>role = PStr ''user'', content = [TextBlock (PStr ''Hi'')]\<rparr>],
          max_tokens = PInt 4096, temperature = PFloat (4 / 5), top_k = PInt 40,
          top_p = PFloat (9 / 10), stop_sequences = PList [],
          stream = PBool False, system = None\<rparr>"
proof -
  let ?mid = "''claude-3-haiku-20240307''"
  have pop1: "pop_system_message [system_turn (PStr ''Be terse''), user_turn (PStr ''Hi'')]
      = Inr (PStr ''Be terse'', [user_turn (PStr ''Hi'')])"
    by (simp add: system_turn_def dict_getitem_def)
  obtain p1 where p1: "prepare_payload (\<lambda>x. ''?'') default_valves ?mid
      [system_turn (PStr ''Be terse''), user_turn (PStr ''Hi'')] [] = Inr p1"
    using prepare_payload_eval [OF pop1 process_messages_user_plain] by blast
  obtain p2 where p2: "prepare_payload (\<lambda>x. ''?'') default_valves ?mid
      [user_turn (PStr ''Hi'')] [] = Inr p2"
    using prepare_payload_hi by blast
  have s1: "system p1 = Some ''Be terse''"
    using system_field [OF p1 pop1, of "''Be terse''"] by simp
  have s2: "system p2 = None"
    using system_field [OF p2 pop_user_turn, of "[]"] by simp
  have e1: "p1 = \<lparr>model = ?mid,
          messages = [\<lparr>role = PStr ''user'', content = [TextBlock (PStr ''Hi'')]\<rparr>],
          max_tokens = PInt 4096, temperature = PFloat (4 / 5), top_k = PInt 40,
          top_p = PFloat (9 / 10), stop_sequences = PList [],
          stream = PBool False, system = Some ''Be terse''\<rparr>"
    using p1 s1 prepare_payload_eval [OF pop1 process_messages_user_plain,
        where v = default_valves and repr = "\<lambda>x. ''?''" and model_id = ?mid and body = "[]"]
    by (cases p1) (simp add: default_valves_def dict_get_def)
  have e2: "p2 = \<lparr>model = ?mid,
          messages = [\<lparr>role = PStr ''user'', content = [TextBlock (PStr ''Hi'')]\<rparr>],
          max_tokens = PInt 4096, temperature = PFloat (4 / 5), top_k = PInt 40,
          top_p = PFloat (9 / 10), stop_sequences = PList [],
          stream = PBool False, system = None\<rparr>"
    using p2 s2 prepare_payload_hi [of "\<lambda>x. ''?''" default_valves ?mid "''Hi''" "[]"]
    by (cases p2) (simp add: default_valves_def dict_get_def)
  from p1 p2 e1 e2 show ?thesis by simp
qed

lemma stream_response_events_cong:
  "events_loop evs (stream_end r) = events_loop evs' (stream_end r) \<Longrightarrow>
   stream_response (\<lambda>p s. Inr (r\<lparr>events := evs\<rparr>)) p
     = stream_response (\<lambda>p s. Inr (r\<lparr>events := evs'\<rparr>)) p"
  by (simp add: stream_response_def api_error_def)

text \<open>
  An event that the loop skips, for one of the reasons of \<open>skipped_events\<close>, leaves no
  trace: wherever it stands in a sequence, the loop and \<^verbatim>\<open>stream_response\<close> produce what
  they produce for the sequence without it, and between two events that yield the chunks
  \<open>a\<close> and \<open>b\<close> both chunks are produced, in order.
\<close>

lemma skipped_event_leaves_no_trace:
  assumes "handle_event ev = Inr Continue"
  shows "events_loop (pre @ ev # rest) fin = events_loop (pre @ rest) fin"
    and "stream_response (\<lambda>p s. Inr (r\<lparr>events := pre @ ev # rest\<rparr>)) p
          = stream_response (\<lambda>p s. Inr (r\<lparr>events := pre @ rest\<rparr>)) p"
    and "handle_event e1 = Inr (Yield a) \<Longrightarrow> handle_event e2 = Inr (Yield b) \<Longrightarrow>
          events_loop (e1 # ev # e2 # rest) fin
            = (a # b # fst (events_loop rest fin), snd (events_loop rest fin))"
proof -
  note l = events_loop_skip [OF assms]
  show "events_loop (pre @ ev # rest) fin = events_loop (pre @ rest) fin"
    by (rule l)
  show "stream_response (\<lambda>p s. Inr (r\<lparr>events := pre @ ev # rest\<rparr>)) p
          = stream_response (\<lambda>p s. Inr (r\<lparr>events := pre @ rest\<rparr>)) p"
    by (rule stream_response_events_cong [OF l])
  show "events_loop (e1 # ev # e2 # rest) fin
            = (a # b # fst (events_loop rest fin), snd (events_loop rest fin))"
    if "handle_event e1 = Inr (Yield a)" "handle_event e2 = Inr (Yield b)"
    using that assms by (simp add: split_beta)
qed

text \<open>
  The handlers of lines 224 to 228 take \<open>JSONDecodeError\<close> and \<open>KeyError\<close> only. Data that
  is valid JSON but not an object raises \<open>TypeError\<close> at \<open>data["type"]\<close>, and data on which
  \<open>json.loads\<close> raises \<open>RecursionError\<close> or a plain \<open>ValueError\<close> is not taken either: the
  loop ends at such an event, whatever follows it.
\<close>

lemma uncaught_events_end_loop:
  "events_loop (Json PNone # rest) fin
     = ([], Some (TypeError (quote ''NoneType'' @ '' object is not subscriptable'')))"
  "events_loop (Json (PList xs) # rest) fin
     = ([], Some (TypeError ''list indices must be integers or slices, not str''))"
  "events_loop (LoadsRaises (RecursionError m) # rest) fin = ([], Some (RecursionError m))"
  "events_loop (LoadsRaises (ValueError m) # rest) fin = ([], Some (ValueError m))"
  by (simp_all add: inner_handlers_def event_body_def)

text \<open>
  C8, at a failing input. C8 has an event whose expected payload field is missing skipped,
  and the chunks of the valid events around it produced. Take, on a response with status
  200, a \<open>content_block_start\<close> event with text \<open>Hi\<close>, a \<open>content_block_delta\<close> event whose
  \<open>delta\<close> is \<open>null\<close>, and a \<open>content_block_delta\<close> event with text \<open> there\<close>. The second
  event has no \<open>text\<close> field; reading it subscripts \<open>None\<close> and raises \<open>TypeError\<close>, which
  the handlers inside the loop do not take. The loop ends after the first chunk, with the
  same outcome whatever follows: the generator yields \<open>Hi\<close>, then the chunk
  \<open>Error during streaming: 'NoneType' object is not subscriptable\<close>, and ends. The chunk
  \<open> there\<close> is never produced.
\<close>

theorem null_delta_ends_stream:
  "handle_event (Json (PDict [(''type'', PStr ''content_block_delta''), (''delta'', PNone)]))
     = Inl (TypeError (quote ''NoneType'' @ '' object is not subscriptable''))
   \<and> events_loop
       (Json (PDict [(''type'', PStr ''content_block_start''),
                     (''content_block'', PDict [(''text'', PStr ''Hi'')])])
        # Json (PDict [(''type'', PStr ''content_block_delta''), (''delta'', PNone)])
        # Json (PDict [(''type'', PStr ''content_block_delta''),
                       (''delta'', PDict [(''text'', PStr '' there'')])])
        # rest) fin
     = ([PStr ''Hi''], Some (TypeError (quote ''NoneType'' @ '' object is not subscriptable'')))
   \<and> stream_response
       (\<lambda>p s. Inr \<lparr>status_code = 200, body_text = t, json_result = j,
          events =
            Json (PDict [(''type'', PStr ''content_block_start''),
                         (''content_block'', PDict [(''text'', PStr ''Hi'')])])
            # Json (PDict [(''type'', PStr ''content_block_delta''), (''delta'', PNone)])
            # Json (PDict [(''type'', PStr ''content_block_delta''),
                           (''delta'', PDict [(''text'', PStr '' there'')])])
            # rest,
          stream_end = fin\<rparr>) p
     = Generator
         [PStr ''Hi'',
          PStr (''Error during streaming: '' @ quote ''NoneType''
                  @ '' object is not subscriptable'')] None"
  by (simp add: stream_response_def inner_handlers_def event_body_def dict_getitem_def)

text \<open>
  C9. In a list content, an item whose type tag is neither \<open>text\<close> nor \<open>image_url\<close> is
  dropped without an error: wherever it stands among the items, normalising the list, and
  the turn that holds it, gives what normalising the list without the item gives. An item
  tagged \<open>image\<close> is such an item.
\<close>

theorem unknown_item_dropped:
  "(map_of d ''type'' = Some ty \<and> ty \<noteq> PStr ''text'' \<and> ty \<noteq> PStr ''image_url'' \<longrightarrow>
      process_items v st (pre @ PDict d # rest) = process_items v st (pre @ rest)
      \<and> (map_of message ''content'' = Some (PList (pre @ PDict d # rest)) \<longrightarrow>
           process_content v st message = process_items v st (pre @ rest)))
   \<and> process_items v st (pre @ PDict ((''type'', PStr ''image'') # d') # rest)
       = process_items v st (pre @ rest)"
proof (intro conjI impI)
  assume a: "map_of d ''type'' = Some ty \<and> ty \<noteq> PStr ''text'' \<and> ty \<noteq> PStr ''image_url''"
  then show s: "process_items v st (pre @ PDict d # rest) = process_items v st (pre @ rest)"
    using process_items_skip [of d ty v st pre rest] by simp
  assume "map_of message ''content'' = Some (PList (pre @ PDict d # rest))"
  then show "process_content v st message = process_items v st (pre @ rest)"
    using s by (simp add: process_content_def dict_get_def)
next
  show "process_items v st (pre @ PDict ((''type'', PStr ''image'') # d') # rest)
       = process_items v st (pre @ rest)"
    by (rule process_items_skip [of _ "PStr ''image''"]) simp_all
qed

theorem unknown_item_dropped_witness:
  "process_content default_valves (0, 0)
     (user_turn (PList
        [PDict [(''type'', PStr ''text''), (''text'', PStr ''a'')],
         PDict [(''type'', PStr ''image''),
                (''source'', PDict [(''type'', PStr ''url''), (''url'', PStr ''http://x/y.png'')])],
         PDict [(''type'', PStr ''text''), (''text'', PStr ''b'')]]))
   = Inr ((0, 0), [TextBlock (PStr ''a''), TextBlock (PStr ''b'')])"
proof -
  let ?a = "PDict [(''type'', PStr ''text''), (''text'', PStr ''a'')]"
  let ?b = "PDict [(''type'', PStr ''text''), (''text'', PStr ''b'')]"
  let ?d = "[(''type'', PStr ''image''),
      (''source'', PDict [(''type'', PStr ''url''), (''url'', PStr ''http://x/y.png'')])]"
  have "process_items default_valves (0, 0) ([?a] @ [?b])
      = Inr ((0, 0), [TextBlock (PStr ''a''), TextBlock (PStr ''b'')])"
    by (simp add: dict_getitem_def)
  with unknown_item_dropped [where d = ?d and ty = "PStr ''image''" and v = default_valves
      and st = "(0, 0)" and pre = "[?a]" and rest = "[?b]"
      and message = "user_turn (PList [?a, PDict ?d, ?b])" and d' = "[]"]
  show ?thesis by (simp add: user_turn_def)
qed

text \<open>
  C10. A turn whose content is not a list is normalised to exactly one text block whose
  text is the content value, and a turn with no \<open>content\<close> key to exactly one text block
  whose text is the empty string; neither raises, and the counters are left as they were.
  With the turn's role the block makes the outbound turn.
\<close>

theorem plain_content_one_text_block:
  "(map_of message ''content'' = Some c \<and> \<not> is_list c \<longrightarrow>
      process_content v st message = Inr (st, [TextBlock c])
      \<and> (map_of message ''role'' = Some r \<longrightarrow>
           process_message v st message = Inr (st, \<lparr>role = r, content = [TextBlock c]\<rparr>)))
   \<and> (map_of message ''content'' = None \<longrightarrow>
      process_content v st message = Inr (st, [TextBlock (PStr [])])
      \<and> (map_of message ''role'' = Some r \<longrightarrow>
           process_message v st message
             = Inr (st, \<lparr>role = r, content = [TextBlock (PStr [])]\<rparr>)))"
  by (cases c)
     (auto simp: process_message_def process_content_def dict_get_def dict_getitem_def)

theorem plain_content_one_text_block_witness:
  "process_message default_valves (0, 0) (user_turn (PStr ''Hi''))
     = Inr ((0, 0), \<lparr>role = PStr ''user'', content = [TextBlock (PStr ''Hi'')]\<rparr>)
   \<and> process_message default_valves (0, 0) [(''role'', PStr ''assistant'')]
     = Inr ((0, 0), \<lparr>role = PStr ''assistant'', content = [TextBlock (PStr [])]\<rparr>)"
  using plain_content_one_text_block [where message = "user_turn (PStr ''Hi'')"
      and c = "PStr ''Hi''" and r = "PStr ''user''" and v = default_valves and st = "(0, 0)"]
    plain_content_one_text_block [where message = "[(''role'', PStr ''assistant'')]"
      and c = PNone and r = "PStr ''assistant''" and v = default_valves and st = "(0, 0)"]
  by (simp add: user_turn_def)

end
